theory Spec2Isabelle
  imports Complex_Main "HOL-Library.Word"
begin

section \<open>Go basics\<close>

text \<open>
  Go's \<open>int\<close> is modelled as \<open>int\<close>: the integers of this program are pixel coordinates
  and slice lengths, far from the 64-bit limits. Go's integer division truncates towards
  zero, unlike \<open>div\<close>, which floors.
\<close>

definition quo :: "int \<Rightarrow> int \<Rightarrow> int" where
  "quo a b = sgn a * sgn b * (\<bar>a\<bar> div \<bar>b\<bar>)"

text \<open>
  Errors of \<open>github.com/pkg/errors\<close>: \<open>errors.New\<close>, \<open>errors.Errorf\<close> (the format string and
  its integer arguments are kept apart) and \<open>errors.Wrap\<close>.
\<close>

datatype error = New string | Errorf string "int list" | Wrap error string

text \<open>Reading a slice at an index: \<open>None\<close> is Go's run-time panic on an index out of range.\<close>

definition index :: "'a list \<Rightarrow> int \<Rightarrow> 'a option" where
  "index xs i = (if 0 \<le> i \<and> i < int (length xs) then Some (xs ! nat i) else None)"

section \<open>Package image: points, rectangles, images\<close>

record point =
  X :: int
  Y :: int

record rectangle =
  Min_pt :: point
  Max_pt :: point

definition Dx :: "rectangle \<Rightarrow> int" where
  "Dx r = X (Max_pt r) - X (Min_pt r)"

definition Dy :: "rectangle \<Rightarrow> int" where
  "Dy r = Y (Max_pt r) - Y (Min_pt r)"

section \<open>Landmarks.Center: the crop rectangle\<close>

definition square :: "rectangle \<Rightarrow> rectangle" where
  "square rect =
     (let width = X (Max_pt rect) - X (Min_pt rect);
          height = Y (Max_pt rect) - Y (Min_pt rect)
      in if height > width then
           (let left = quo (height - width) 2;
                right = height - width - left
            in \<lparr>Min_pt = \<lparr>X = X (Min_pt rect) - left, Y = Y (Min_pt rect)\<rparr>,
                Max_pt = \<lparr>X = X (Max_pt rect) + right, Y = Y (Max_pt rect)\<rparr>\<rparr>)
         else if width > height then
           (let top = quo (width - height) 2;
                bottom = width - height - top
            in \<lparr>Min_pt = \<lparr>X = X (Min_pt rect), Y = Y (Min_pt rect) - top\<rparr>,
                Max_pt = \<lparr>X = X (Max_pt rect), Y = Y (Max_pt rect) + bottom\<rparr>\<rparr>)
         else rect)"

definition insideOf :: "rectangle \<Rightarrow> rectangle \<Rightarrow> rectangle" where
  "insideOf rect bounds =
     (let rect1 = (if X (Min_pt bounds) > X (Min_pt rect) then
                     \<lparr>Min_pt = (Min_pt rect)\<lparr>X := X (Min_pt bounds)\<rparr>,
                      Max_pt = (Max_pt rect)\<lparr>X := X (Max_pt rect) + (X (Min_pt bounds) - X (Min_pt rect))\<rparr>\<rparr>
                   else rect);
          rect2 = (if Y (Min_pt bounds) > Y (Min_pt rect1) then
                     \<lparr>Min_pt = (Min_pt rect1)\<lparr>Y := Y (Min_pt bounds)\<rparr>,
                      Max_pt = (Max_pt rect1)\<lparr>Y := Y (Max_pt rect1) + (Y (Min_pt bounds) - Y (Min_pt rect1))\<rparr>\<rparr>
                   else rect1);
          rect3 = (if X (Max_pt rect2) > X (Max_pt bounds) then
                     \<lparr>Min_pt = (Min_pt rect2)\<lparr>X := X (Min_pt rect2) - (X (Max_pt rect2) - X (Max_pt bounds))\<rparr>,
                      Max_pt = (Max_pt rect2)\<lparr>X := X (Max_pt bounds)\<rparr>\<rparr>
                   else rect2);
          rect4 = (if Y (Max_pt rect3) > Y (Max_pt bounds) then
                     \<lparr>Min_pt = (Min_pt rect3)\<lparr>Y := Y (Min_pt rect3) - (Y (Max_pt rect3) - Y (Max_pt bounds))\<rparr>,
                      Max_pt = (Max_pt rect3)\<lparr>Y := Y (Max_pt bounds)\<rparr>\<rparr>
                   else rect3)
      in rect4)"

definition inside :: "rectangle \<Rightarrow> rectangle \<Rightarrow> bool" where
  "inside r s \<longleftrightarrow>
     X (Min_pt s) \<le> X (Min_pt r) \<and> X (Max_pt r) \<le> X (Max_pt s) \<and>
     Y (Min_pt s) \<le> Y (Min_pt r) \<and> Y (Max_pt r) \<le> Y (Max_pt s)"

text \<open>
  The loop of \<open>Center\<close> over the landmark points: one step updates the four running
  extrema, which start at the opposite corners of the full image's bounds.
\<close>

definition Center_step :: "int \<times> int \<times> int \<times> int \<Rightarrow> point \<Rightarrow> int \<times> int \<times> int \<times> int" where
  "Center_step acc p =
     (case acc of (minX, minY, maxX, maxY) \<Rightarrow>
        (let minX = (if X p < minX then X p else minX);
             minY = (if Y p < minY then Y p else minY);
             maxX = (if X p > maxX then X p else maxX);
             maxY = (if Y p > maxY then Y p else maxY)
         in (minX, minY, maxX, maxY)))"

definition Center_box :: "point list \<Rightarrow> rectangle \<Rightarrow> rectangle" where
  "Center_box points bounds =
     (case foldl Center_step
             (X (Max_pt bounds), Y (Max_pt bounds), X (Min_pt bounds), Y (Min_pt bounds)) points of
        (minX, minY, maxX, maxY) \<Rightarrow>
          \<lparr>Min_pt = \<lparr>X = minX, Y = minY\<rparr>, Max_pt = \<lparr>X = maxX, Y = maxY\<rparr>\<rparr>)"

definition Center_rect :: "point list \<Rightarrow> rectangle \<Rightarrow> rectangle" where
  "Center_rect points bounds =
     (let rect = Center_box points bounds;
          rect = square rect;
          rect = insideOf rect bounds
      in rect)"

text \<open>
  The axis-aligned bounding box of a set of points, as geometry has it: the least and
  the greatest coordinate on each axis. It is what the loop of \<open>Center\<close> is compared with.
\<close>

definition bounding_box :: "point list \<Rightarrow> rectangle" where
  "bounding_box ps =
     \<lparr>Min_pt = \<lparr>X = Min (set (map X ps)), Y = Min (set (map Y ps))\<rparr>,
      Max_pt = \<lparr>X = Max (set (map X ps)), Y = Max (set (map Y ps))\<rparr>\<rparr>"


section \<open>Images\<close>

text \<open>
  An image is its bounds and its pixels; the colour type is left open, with \<open>0\<close> the
  transparent colour of a fresh \<open>image.NewRGBA\<close>. \<open>Draw\<close> is \<open>draw.Draw\<close> with \<open>draw.Src\<close>:
  the rectangle \<open>r\<close> of \<open>dst\<close>, clipped to both images, is replaced by the pixels of \<open>src\<close>
  that start at \<open>sp\<close>. Both belong to Go's standard library. \<open>image.NewRGBA\<close> panics on a
  rectangle of negative width or height: that is the result \<open>None\<close>. Sizes beyond the memory
  of the machine are outside the model.
\<close>

record 'c image =
  Bounds :: rectangle
  At :: "int \<Rightarrow> int \<Rightarrow> 'c"

definition pt_In :: "int \<Rightarrow> int \<Rightarrow> rectangle \<Rightarrow> bool" where
  "pt_In x y r \<longleftrightarrow>
     X (Min_pt r) \<le> x \<and> x < X (Max_pt r) \<and> Y (Min_pt r) \<le> y \<and> y < Y (Max_pt r)"

definition blank :: "rectangle \<Rightarrow> ('c::zero) image" where
  "blank r = \<lparr>Bounds = r, At = (\<lambda>x y. 0)\<rparr>"

definition NewRGBA :: "rectangle \<Rightarrow> ('c::zero) image option" where
  "NewRGBA r = (if Dx r < 0 \<or> Dy r < 0 then None else Some (blank r))"

definition Draw :: "'c image \<Rightarrow> rectangle \<Rightarrow> 'c image \<Rightarrow> point \<Rightarrow> 'c image" where
  "Draw dst r src sp =
     dst\<lparr>At := (\<lambda>x y.
        (let sx = x + (X sp - X (Min_pt r)); sy = y + (Y sp - Y (Min_pt r))
         in if pt_In x y r \<and> pt_In x y (Bounds dst) \<and> pt_In sx sy (Bounds src)
            then At src sx sy else At dst x y))\<rparr>"

section \<open>Floating point\<close>

text \<open>
  A \<open>float32\<close> that the program only compares (a detection's score) is the real number it
  denotes: comparison of floating-point numbers is exact. Scores are confidences
  between 0 and 1; NaN and the infinities are outside the model. \<open>is_float32\<close> says which
  reals are \<open>float32\<close> values: a significand of at most 24 bits times a power of two in the
  format's range.
\<close>

type_synonym float32 = real

definition is_float32 :: "real \<Rightarrow> bool" where
  "is_float32 x \<longleftrightarrow>
     (\<exists>m e :: int. \<bar>m\<bar> < 2 ^ 24 \<and> - 149 \<le> e \<and> e \<le> 104 \<and> x = of_int m * 2 powi e)"

text \<open>
  The untyped constants \<open>0.6\<close> and \<open>0.4\<close>, passed where a \<open>float32\<close> is expected, are
  converted to the nearest \<open>float32\<close>.
\<close>

definition float32_0_6 :: float32 where
  "float32_0_6 = 10066330 / 2 ^ 24"

definition float32_0_4 :: float32 where
  "float32_0_4 = 13421773 / 2 ^ 25"

text \<open>
  Where the program computes with \<open>float32\<close> (landmark coordinates, descriptors), the
  type and its rounding operations are parameters: \<open>f_of_int\<close> is the conversion
  \<open>float32(n)\<close>, \<open>f_to_int\<close> the truncating conversion \<open>int(x)\<close>, \<open>f_sqrt\<close> is
  \<open>float32(math.Sqrt(float64(x)))\<close>.
\<close>

record 'f float32_ops =
  f_of_int :: "int \<Rightarrow> 'f"
  f_to_int :: "'f \<Rightarrow> int"
  f_add :: "'f \<Rightarrow> 'f \<Rightarrow> 'f"
  f_sub :: "'f \<Rightarrow> 'f \<Rightarrow> 'f"
  f_mul :: "'f \<Rightarrow> 'f \<Rightarrow> 'f"
  f_sqrt :: "'f \<Rightarrow> 'f"

text \<open>
  Where every value involved is a \<open>float32\<close> and so is every exact result (small
  integers, halves and quarters of them), the operations compute the exact results: these
  are the operations that the concrete examples below run on.
\<close>

definition exact_ops :: "real float32_ops" where
  "exact_ops =
     \<lparr>f_of_int = of_int,
      f_to_int = (\<lambda>x. if x < 0 then \<lceil>x\<rceil> else \<lfloor>x\<rfloor>),
      f_add = (+), f_sub = (-), f_mul = (*), f_sqrt = sqrt\<rparr>"

text \<open>
  An arithmetic with the special values of the format: not-a-number and the two
  infinities, combined as IEEE 754 combines them, beside the finite values, on which the
  operations are exact (rounding and overflow are left out). A conversion to \<open>int\<close> of a
  special value gives the least 64-bit integer, as on amd64.
\<close>

datatype xfloat = NaN | PosInf | NegInf | Finite real

fun x_neg :: "xfloat \<Rightarrow> xfloat" where
  "x_neg NaN = NaN"
| "x_neg PosInf = NegInf"
| "x_neg NegInf = PosInf"
| "x_neg (Finite a) = Finite (- a)"

fun x_add :: "xfloat \<Rightarrow> xfloat \<Rightarrow> xfloat" where
  "x_add (Finite a) (Finite b) = Finite (a + b)"
| "x_add NaN y = NaN"
| "x_add x NaN = NaN"
| "x_add PosInf NegInf = NaN"
| "x_add NegInf PosInf = NaN"
| "x_add PosInf y = PosInf"
| "x_add x PosInf = PosInf"
| "x_add NegInf y = NegInf"
| "x_add x NegInf = NegInf"

definition x_sub :: "xfloat \<Rightarrow> xfloat \<Rightarrow> xfloat" where
  "x_sub x y = x_add x (x_neg y)"

fun x_sign :: "xfloat \<Rightarrow> real" where
  "x_sign NaN = 0"
| "x_sign PosInf = 1"
| "x_sign NegInf = - 1"
| "x_sign (Finite a) = sgn a"

fun x_mul :: "xfloat \<Rightarrow> xfloat \<Rightarrow> xfloat" where
  "x_mul (Finite a) (Finite b) = Finite (a * b)"
| "x_mul NaN y = NaN"
| "x_mul x NaN = NaN"
| "x_mul x y =
     (if x_sign x * x_sign y = 0 then NaN
      else if 0 < x_sign x * x_sign y then PosInf else NegInf)"

fun x_sqrt :: "xfloat \<Rightarrow> xfloat" where
  "x_sqrt NaN = NaN"
| "x_sqrt PosInf = PosInf"
| "x_sqrt NegInf = NaN"
| "x_sqrt (Finite a) = (if a < 0 then NaN else Finite (sqrt a))"

fun x_to_int :: "xfloat \<Rightarrow> int" where
  "x_to_int (Finite a) = (if a < 0 then \<lceil>a\<rceil> else \<lfloor>a\<rfloor>)"
| "x_to_int x = - (2 ^ 63)"

definition special_ops :: "xfloat float32_ops" where
  "special_ops =
     \<lparr>f_of_int = (\<lambda>n. Finite (of_int n)), f_to_int = x_to_int,
      f_add = x_add, f_sub = x_sub, f_mul = x_mul, f_sqrt = x_sqrt\<rparr>"

section \<open>Detections\<close>

record detection =
  Box :: rectangle
  Score :: float32
  Class :: float32

definition Above :: "detection list \<Rightarrow> float32 \<Rightarrow> detection list" where
  "Above allDetections threshold = filter (\<lambda>d. \<not> Score d < threshold) allDetections"

section \<open>Landmarks\<close>

record 'f Landmarks =
  Coords :: "'f list"

function PointsOnImage_loop ::
  "'f float32_ops \<Rightarrow> 'f \<Rightarrow> 'f \<Rightarrow> int \<Rightarrow> int \<Rightarrow> 'f list \<Rightarrow> int \<Rightarrow> point list \<Rightarrow> point list option"
where
  "PointsOnImage_loop ops w h minX minY coords i points =
     (if i < int (length coords) - 1 then
        (case (index coords i, index coords (i + 1)) of
           (Some x, Some y) \<Rightarrow>
             PointsOnImage_loop ops w h minX minY coords (i + 2)
               (points @ [\<lparr>X = minX + f_to_int ops (f_mul ops w x),
                           Y = minY + f_to_int ops (f_mul ops h y)\<rparr>])
         | _ \<Rightarrow> None)
      else Some points)"
  by pat_completeness auto
termination
  by (relation "measure (\<lambda>(ops, w, h, minX, minY, coords, i, points). nat (int (length coords) - i))")
    auto

declare PointsOnImage_loop.simps [simp del]

definition PointsOnImage :: "'f float32_ops \<Rightarrow> 'f Landmarks \<Rightarrow> 'c image \<Rightarrow> point list option" where
  "PointsOnImage ops l img =
     (let w = f_of_int ops (Dx (Bounds img)); h = f_of_int ops (Dy (Bounds img));
          minX = X (Min_pt (Bounds img)); minY = Y (Min_pt (Bounds img))
      in PointsOnImage_loop ops w h minX minY (Coords l) 0 [])"

definition Center ::
  "'f float32_ops \<Rightarrow> 'f Landmarks \<Rightarrow> 'c image \<Rightarrow> ('c::zero) image \<Rightarrow> 'c image option" where
  "Center ops l cropped full =
     (case PointsOnImage ops l cropped of
        None \<Rightarrow> None
      | Some points \<Rightarrow>
          (let bounds = Bounds full;
               rect = Center_box points bounds;
               rect = square rect;
               rect = insideOf rect bounds
           in case NewRGBA rect of
                None \<Rightarrow> None
              | Some out \<Rightarrow> Some (Draw out (Bounds out) full (Min_pt rect))))"

section \<open>Descriptors\<close>

type_synonym 'f Descriptors = "'f list"

function DistanceTo_loop ::
  "'f float32_ops \<Rightarrow> 'f Descriptors \<Rightarrow> 'f Descriptors \<Rightarrow> int \<Rightarrow> 'f \<Rightarrow> 'f option"
where
  "DistanceTo_loop ops d d2 i sum_acc =
     (if i < int (length d) then
        (case (index d i, index d2 i) of
           (Some x, Some y) \<Rightarrow>
             DistanceTo_loop ops d d2 (i + 1)
               (f_add ops sum_acc (f_mul ops (f_sub ops x y) (f_sub ops x y)))
         | _ \<Rightarrow> None)
      else Some sum_acc)"
  by pat_completeness auto
termination
  by (relation "measure (\<lambda>(ops, d, d2, i, sum_acc). nat (int (length d) - i))") auto

declare DistanceTo_loop.simps [simp del]

text \<open>The result is Go's pair \<open>(float32, error)\<close>; \<open>None\<close> is a run-time panic.\<close>

definition DistanceTo ::
  "'f float32_ops \<Rightarrow> 'f Descriptors \<Rightarrow> 'f Descriptors \<Rightarrow> ('f \<times> error option) option" where
  "DistanceTo ops d d2 =
     (if length d \<noteq> length d2 then
        Some (f_of_int ops 0,
          Some (Errorf ''cannot calculate distance between descriptors of dimensions %d and %d''
                  [int (length d), int (length d2)]))
      else
        (case DistanceTo_loop ops d d2 0 (f_of_int ops 0) of
           None \<Rightarrow> None
         | Some sum_acc \<Rightarrow> Some (f_sqrt ops sum_acc, None)))"

section \<open>The extractor\<close>

text \<open>
  The three capabilities are interfaces; each is the function from the image it is given
  to Go's pair of a result and an error. A \<open>nil\<close> error comes with a usable result.
\<close>

record ('c, 'f) Extractor =
  Detector :: "'c image \<Rightarrow> detection list \<times> error option"
  Landmark :: "'c image \<Rightarrow> 'f Landmarks \<times> error option"
  Descriptor :: "'c image \<Rightarrow> 'f Descriptors \<times> error option"

text \<open>
  The results are Go's triples; a \<open>nil\<close> slice is the empty list, and \<open>None\<close> is a run-time
  panic.
\<close>

fun Extract_loop ::
  "'f float32_ops \<Rightarrow> ('c::zero, 'f) Extractor \<Rightarrow> 'c image \<Rightarrow> detection list \<Rightarrow>
   'c image list \<Rightarrow> 'f Descriptors list \<Rightarrow>
   ('c image list \<times> 'f Descriptors list \<times> error option) option"
where
  "Extract_loop ops e img [] images descrs = Some (images, descrs, None)"
| "Extract_loop ops e img (d # ds) images descrs =
     (if Dx (Box d) < 45 \<or> Dy (Box d) < 45 then Extract_loop ops e img ds images descrs
      else
        (case NewRGBA (Box d) of
           None \<Rightarrow> None
         | Some cropped \<Rightarrow>
             (let cropped = Draw cropped (Box d) img (Min_pt (Box d)) in
              case Landmark e cropped of
                (landmarks, Some err) \<Rightarrow>
                  Some ([], [], Some (Wrap err ''error detecting landmarks''))
              | (landmarks, None) \<Rightarrow>
                  (case Center ops landmarks cropped img of
                     None \<Rightarrow> None
                   | Some cropped2 \<Rightarrow>
                       (case Descriptor e cropped2 of
                          (descriptors, Some err) \<Rightarrow>
                            Some ([], [], Some (Wrap err ''error computing descriptors''))
                        | (descriptors, None) \<Rightarrow>
                            Extract_loop ops e img ds (images @ [cropped2])
                              (descrs @ [descriptors]))))))"

definition Extract ::
  "'f float32_ops \<Rightarrow> ('c::zero, 'f) Extractor \<Rightarrow> 'c image \<Rightarrow>
   ('c image list \<times> 'f Descriptors list \<times> error option) option" where
  "Extract ops e img =
     (case Detector e img of
        (allDetections, Some err) \<Rightarrow> Some ([], [], Some (Wrap err ''error detecting faces''))
      | (allDetections, None) \<Rightarrow>
          (let detections = Above allDetections float32_0_6
           in Extract_loop ops e img detections [] []))"

fun ExtractLandmarks_loop ::
  "'f float32_ops \<Rightarrow> ('c::zero, 'f) Extractor \<Rightarrow> 'c image \<Rightarrow> detection list \<Rightarrow>
   point list list \<Rightarrow> 'c image list \<Rightarrow>
   (point list list \<times> 'c image list \<times> error option) option"
where
  "ExtractLandmarks_loop ops e img [] ret crops = Some (ret, crops, None)"
| "ExtractLandmarks_loop ops e img (d # ds) ret crops =
     (if Dx (Box d) < 45 \<or> Dy (Box d) < 45 then ExtractLandmarks_loop ops e img ds ret crops
      else
        (case NewRGBA (Box d) of
           None \<Rightarrow> None
         | Some cropped \<Rightarrow>
             (let cropped = Draw cropped (Box d) img (Min_pt (Box d)) in
              case Landmark e cropped of
                (landmarks, Some err) \<Rightarrow>
                  Some ([], [], Some (Wrap err ''error detecting landmarks''))
              | (landmarks, None) \<Rightarrow>
                  (case PointsOnImage ops landmarks cropped of
                     None \<Rightarrow> None
                   | Some points \<Rightarrow>
                       ExtractLandmarks_loop ops e img ds (ret @ [points])
                         (crops @ [cropped])))))"

definition ExtractLandmarks ::
  "'f float32_ops \<Rightarrow> ('c::zero, 'f) Extractor \<Rightarrow> 'c image \<Rightarrow>
   (point list list \<times> 'c image list \<times> error option) option" where
  "ExtractLandmarks ops e img =
     (case Detector e img of
        (allDetections, Some err) \<Rightarrow> Some ([], [], Some (Wrap err ''error detecting faces''))
      | (allDetections, None) \<Rightarrow>
          (let detections = Above allDetections float32_0_4
           in if length detections = 0 then Some ([], [], Some (New ''no face detected''))
              else ExtractLandmarks_loop ops e img detections [] []))"

text \<open>
  What the loop of \<open>Extract\<close> does with one detection, named for the statements below:
  the first crop (the detection's box cut out of the image), the size test, the errors of
  the two stages, the second crop (the result of \<open>Center\<close>, where it returns one), whether
  \<open>Center\<close> panics, and the descriptor computed on the second crop.
\<close>

definition crop :: "('c::zero) image \<Rightarrow> detection \<Rightarrow> 'c image" where
  "crop img d = Draw (blank (Box d)) (Box d) img (Min_pt (Box d))"

definition too_small :: "detection \<Rightarrow> bool" where
  "too_small d \<longleftrightarrow> Dx (Box d) < 45 \<or> Dy (Box d) < 45"

definition landmark_error :: "('c::zero, 'f) Extractor \<Rightarrow> 'c image \<Rightarrow> detection \<Rightarrow> error option" where
  "landmark_error e img d = snd (Landmark e (crop img d))"

definition normalized ::
  "'f float32_ops \<Rightarrow> ('c::zero, 'f) Extractor \<Rightarrow> 'c image \<Rightarrow> detection \<Rightarrow> 'c image" where
  "normalized ops e img d = the (Center ops (fst (Landmark e (crop img d))) (crop img d) img)"

definition descriptor_error ::
  "'f float32_ops \<Rightarrow> ('c::zero, 'f) Extractor \<Rightarrow> 'c image \<Rightarrow> detection \<Rightarrow> error option" where
  "descriptor_error ops e img d = snd (Descriptor e (normalized ops e img d))"

definition descriptor_of ::
  "'f float32_ops \<Rightarrow> ('c::zero, 'f) Extractor \<Rightarrow> 'c image \<Rightarrow> detection \<Rightarrow> 'f Descriptors" where
  "descriptor_of ops e img d = fst (Descriptor e (normalized ops e img d))"

definition stage_error ::
  "'f float32_ops \<Rightarrow> ('c::zero, 'f) Extractor \<Rightarrow> 'c image \<Rightarrow> detection \<Rightarrow> error option" where
  "stage_error ops e img d =
     (case landmark_error e img d of
        Some err \<Rightarrow> Some (Wrap err ''error detecting landmarks'')
      | None \<Rightarrow>
          (case descriptor_error ops e img d of
             Some err \<Rightarrow> Some (Wrap err ''error computing descriptors'')
           | None \<Rightarrow> None))"

definition Center_panics ::
  "'f float32_ops \<Rightarrow> ('c::zero, 'f) Extractor \<Rightarrow> 'c image \<Rightarrow> detection \<Rightarrow> bool" where
  "Center_panics ops e img d \<longleftrightarrow>
     Center ops (fst (Landmark e (crop img d))) (crop img d) img = None"

text \<open>
  The loop stops at a detection whose landmark stage fails, or on which \<open>Center\<close> panics,
  or whose descriptor stage fails; \<open>stopped\<close> is what \<open>Extract\<close> then gives.
\<close>

definition stops ::
  "'f float32_ops \<Rightarrow> ('c::zero, 'f) Extractor \<Rightarrow> 'c image \<Rightarrow> detection \<Rightarrow> bool" where
  "stops ops e img d \<longleftrightarrow>
     landmark_error e img d \<noteq> None \<or> Center_panics ops e img d \<or>
     descriptor_error ops e img d \<noteq> None"

definition stopped ::
  "'f float32_ops \<Rightarrow> ('c::zero, 'f) Extractor \<Rightarrow> 'c image \<Rightarrow> detection \<Rightarrow>
   ('c image list \<times> 'f Descriptors list \<times> error option) option" where
  "stopped ops e img d =
     (if landmark_error e img d = None \<and> Center_panics ops e img d then None
      else Some ([], [], stage_error ops e img d))"

definition landmark_points ::
  "'f float32_ops \<Rightarrow> ('c::zero, 'f) Extractor \<Rightarrow> 'c image \<Rightarrow> detection \<Rightarrow> point list" where
  "landmark_points ops e img d =
     the (PointsOnImage ops (fst (Landmark e (crop img d))) (crop img d))"

text \<open>
  A concrete extractor for the examples: an image of 200 by 200, a detector that returns
  a given list of detections, a landmark stage that fails on a crop whose left edge is at
  100 and otherwise returns the two landmarks \<open>(1/4, 1/4)\<close> and \<open>(1/2, 1/2)\<close>, and a
  descriptor stage that returns \<open>[1, 2]\<close>. The detections: a face of 100 by 100, a face of
  40 by 40, a face of 100 by 100 whose score is between the two thresholds, and a face on
  which the landmark stage fails.
\<close>

definition example_image :: "nat image" where
  "example_image =
     \<lparr>Bounds = \<lparr>Min_pt = \<lparr>X = 0, Y = 0\<rparr>, Max_pt = \<lparr>X = 200, Y = 200\<rparr>\<rparr>, At = (\<lambda>x y. 0)\<rparr>"

definition example_extractor :: "detection list \<Rightarrow> (nat, real) Extractor" where
  "example_extractor ds =
     \<lparr>Detector = (\<lambda>img. (ds, None)),
      Landmark = (\<lambda>img. if X (Min_pt (Bounds img)) = 100
                         then (\<lparr>Coords = []\<rparr>, Some (New ''no landmarks''))
                         else (\<lparr>Coords = [1 / 4, 1 / 4, 1 / 2, 1 / 2]\<rparr>, None)),
      Descriptor = (\<lambda>img. ([1, 2], None))\<rparr>"

definition face :: detection where
  "face = \<lparr>Box = \<lparr>Min_pt = \<lparr>X = 0, Y = 0\<rparr>, Max_pt = \<lparr>X = 100, Y = 100\<rparr>\<rparr>,
            Score = 3 / 4, Class = 1\<rparr>"

definition small_face :: detection where
  "small_face = \<lparr>Box = \<lparr>Min_pt = \<lparr>X = 100, Y = 100\<rparr>, Max_pt = \<lparr>X = 140, Y = 140\<rparr>\<rparr>,
                  Score = 3 / 4, Class = 1\<rparr>"

definition faint_face :: detection where
  "faint_face = \<lparr>Box = \<lparr>Min_pt = \<lparr>X = 0, Y = 100\<rparr>, Max_pt = \<lparr>X = 100, Y = 200\<rparr>\<rparr>,
                  Score = 1 / 2, Class = 1\<rparr>"

definition far_face :: detection where
  "far_face = \<lparr>Box = \<lparr>Min_pt = \<lparr>X = 100, Y = 0\<rparr>, Max_pt = \<lparr>X = 200, Y = 100\<rparr>\<rparr>,
                Score = 3 / 4, Class = 1\<rparr>"


section \<open>The local cache\<close>

text \<open>
  The file system the cache writes to: the regular files with their contents, and the
  directories. \<open>ioutil.ReadFile\<close> fails on a missing file; \<open>ioutil.WriteFile\<close> creates or
  replaces a file and fails when the directory of the path does not exist or the path is
  a directory; \<open>os.Mkdir\<close> creates one directory and fails when the path exists or its
  parent does not. The empty path stands for the working directory.
\<close>

record filesystem =
  files :: "string \<rightharpoonup> string"
  dirs :: "string set"

definition parent :: "string \<Rightarrow> string" where
  "parent path = rev (drop 1 (dropWhile (\<lambda>c. c \<noteq> CHR ''/'') (rev path)))"

definition ReadFile :: "filesystem \<Rightarrow> string \<Rightarrow> string \<times> error option" where
  "ReadFile fs name =
     (case files fs name of
        None \<Rightarrow> ([], Some (New ''no such file or directory''))
      | Some b \<Rightarrow> (b, None))"

definition WriteFile :: "filesystem \<Rightarrow> string \<Rightarrow> string \<Rightarrow> error option \<times> filesystem" where
  "WriteFile fs name b =
     (if parent name \<in> dirs fs \<and> name \<notin> dirs fs
      then (None, fs\<lparr>files := (files fs)(name \<mapsto> b)\<rparr>)
      else (Some (New ''cannot write file''), fs))"

definition Mkdir :: "filesystem \<Rightarrow> string \<Rightarrow> error option \<times> filesystem" where
  "Mkdir fs name =
     (if name \<notin> dirs fs \<and> files fs name = None \<and> parent name \<in> dirs fs
      then (None, fs\<lparr>dirs := insert name (dirs fs)\<rparr>)
      else (Some (New ''cannot create directory''), fs))"

text \<open>
  The packages the cache calls: \<open>sha1.Sum\<close> (20 bytes), \<open>json.Marshal\<close> of a slice of
  strings and \<open>json.Unmarshal\<close> into one. They are parameters.
\<close>

record packages =
  sha1_Sum :: "string \<Rightarrow> 8 word list"
  json_Marshal :: "string list \<Rightarrow> string \<times> error option"
  json_Unmarshal :: "string \<Rightarrow> string list \<times> error option"

text \<open>\<open>fmt.Sprintf("%x", bytes)\<close>: two lower-case hexadecimal digits for each byte.\<close>

definition hexdigit :: "nat \<Rightarrow> char" where
  "hexdigit n = ''0123456789abcdef'' ! n"

definition hex :: "8 word list \<Rightarrow> string" where
  "hex bs = concat (map (\<lambda>b. [hexdigit (unat b div 16), hexdigit (unat b mod 16)]) bs)"

record LocalCache =
  CacheDir :: string

definition cacheName :: "packages \<Rightarrow> string \<Rightarrow> string \<Rightarrow> string" where
  "cacheName pk cacheDir file = cacheDir @ ''/'' @ hex (sha1_Sum pk file) @ ''.json''"

definition readCache :: "packages \<Rightarrow> filesystem \<Rightarrow> string \<Rightarrow> string list \<times> bool" where
  "readCache pk fs cacheFile =
     (case ReadFile fs cacheFile of
        (b, Some err) \<Rightarrow> ([], False)
      | (b, None) \<Rightarrow>
          (case json_Unmarshal pk b of
             (preds, Some err) \<Rightarrow> ([], False)
           | (preds, None) \<Rightarrow> (preds, True)))"

text \<open>\<open>saveCache\<close> prints its errors and returns nothing: the result is the file system.\<close>

definition saveCache :: "packages \<Rightarrow> filesystem \<Rightarrow> string \<Rightarrow> string \<Rightarrow> string list \<Rightarrow> filesystem" where
  "saveCache pk fs cacheDir cacheFile preds =
     (case json_Marshal pk preds of
        (b, Some err) \<Rightarrow> fs
      | (b, None) \<Rightarrow>
          (case WriteFile fs cacheFile b of
             (None, fs1) \<Rightarrow> fs1
           | (Some err, fs1) \<Rightarrow>
               (case Mkdir fs1 cacheDir of
                  (Some err, fs2) \<Rightarrow> fs2
                | (None, fs2) \<Rightarrow>
                    (case WriteFile fs2 cacheFile b of
                       (Some err, fs3) \<Rightarrow> fs3
                     | (None, fs3) \<Rightarrow> fs3))))"

text \<open>
  The closure \<open>inception\<close> may have effects of its own: it is a function on a state \<open>'s\<close>
  of the caller's, which \<open>Inception\<close> threads beside the file system.
\<close>

definition Inception ::
  "packages \<Rightarrow> LocalCache \<Rightarrow> string \<Rightarrow> ('s \<Rightarrow> (string list \<times> error option) \<times> 's) \<Rightarrow>
   filesystem \<times> 's \<Rightarrow> (string list \<times> error option) \<times> filesystem \<times> 's" where
  "Inception pk l file inception st =
     (case st of (fs, s) \<Rightarrow>
        (let cacheFile = cacheName pk (CacheDir l) file in
         case readCache pk fs cacheFile of
           (preds, True) \<Rightarrow> ((preds, None), fs, s)
         | (preds, False) \<Rightarrow>
             (case inception s of
                ((preds, Some err), s') \<Rightarrow> (([], Some err), fs, s')
              | ((preds, None), s') \<Rightarrow>
                  ((preds, None), saveCache pk fs (CacheDir l) cacheFile preds, s'))))"

text \<open>A closure that counts its calls: the state is the number of calls so far.\<close>

definition counting :: "string list \<times> error option \<Rightarrow> nat \<Rightarrow> (string list \<times> error option) \<times> nat" where
  "counting r n = (r, Suc n)"

text \<open>
  A concrete cache for the examples. The packages are given at the values the examples
  use: the SHA-1 of the file name \<open>photos/a.jpg\<close>, and the JSON text of the list with the
  one label \<open>cat\<close>. Three file systems: one where the cache directory does not exist yet,
  one where its name is taken by a regular file, and the first one after a result was
  cached.
\<close>

definition example_packages :: packages where
  \<open>example_packages =
     \<lparr>sha1_Sum = (\<lambda>file. if file = ''photos/a.jpg''
                         then [68, 29, 5, 19, 178, 238, 228, 110, 169, 181,
                               196, 129, 80, 15, 203, 98, 68, 20, 67, 88]
                         else replicate 20 0),
      json_Marshal = (\<lambda>preds. if preds = [''cat''] then (''["cat"]'', None)
                              else ([], Some (New ''not in the table''))),
      json_Unmarshal = (\<lambda>b. if b = ''["cat"]'' then ([''cat''], None)
                            else ([], Some (New ''not in the table'')))\<rparr>\<close>

definition example_cache :: LocalCache where
  "example_cache = \<lparr>CacheDir = ''photos/.inception''\<rparr>"

definition fresh_fs :: filesystem where
  "fresh_fs = \<lparr>files = [''photos/a.jpg'' \<mapsto> ''jpeg''], dirs = {'''', ''photos''}\<rparr>"

definition blocked_fs :: filesystem where
  "blocked_fs =
     \<lparr>files = [''photos/a.jpg'' \<mapsto> ''jpeg'', ''photos/.inception'' \<mapsto> ''''],
      dirs = {'''', ''photos''}\<rparr>"

definition cached_fs :: filesystem where
  \<open>cached_fs =
     \<lparr>files = [''photos/a.jpg'' \<mapsto> ''jpeg'',
               ''photos/.inception/441d0513b2eee46ea9b5c481500fcb6244144358.json'' \<mapsto> ''["cat"]''],
      dirs = {''photos/.inception'', '''', ''photos''}\<rparr>\<close>

section \<open>Properties of the crop rectangle\<close>

lemma insideOf_Dx: "Dx (insideOf rect bounds) = Dx rect"
  by (simp add: insideOf_def Dx_def Let_def)

lemma insideOf_Dy: "Dy (insideOf rect bounds) = Dy rect"
  by (simp add: insideOf_def Dy_def Let_def)

lemma quo_2_nonneg: "0 \<le> a \<Longrightarrow> quo a 2 = a div 2"
  by (cases "a = 0") (simp_all add: quo_def)

lemma square_Dx: "Dx (square rect) = max (Dx rect) (Dy rect)"
  by (simp add: square_def Dx_def Dy_def Let_def)

lemma square_Dy: "Dy (square rect) = max (Dx rect) (Dy rect)"
  by (simp add: square_def Dx_def Dy_def Let_def)


lemma Center_step_min_max:
  "Center_step (a, b, c, d) p = (min (X p) a, min (Y p) b, max (X p) c, max (Y p) d)"
  by (simp add: Center_step_def Let_def min_def max_def)

lemma foldl_Center_step:
  "foldl Center_step (a, b, c, d) ps =
     (fold min (map X ps) a, fold min (map Y ps) b, fold max (map X ps) c, fold max (map Y ps) d)"
  by (induction ps arbitrary: a b c d) (simp_all add: Center_step_min_max)

lemma fold_min_Min: "fold min xs (a::int) = Min (insert a (set xs))"
  using Min.set_eq_fold [of a xs] by simp

lemma fold_max_Max: "fold max xs (a::int) = Max (insert a (set xs))"
  using Max.set_eq_fold [of a xs] by simp

lemma Min_le_Max_int: "finite S \<Longrightarrow> S \<noteq> {} \<Longrightarrow> Min S \<le> (Max S :: int)"
  by (meson Max_ge Min_le all_not_in_conv order_trans)

lemma fold_min_above:
  assumes "xs \<noteq> []" and "Max (set xs) \<le> (a::int)"
  shows "fold min xs a = Min (set xs)"
proof -
  have "Min (set xs) \<le> Max (set xs)" using assms(1) by (simp add: Min_le_Max_int)
  then have le: "Min (set xs) \<le> a" using assms(2) by linarith
  have "fold min xs a = min a (Min (set xs))"
    unfolding fold_min_Min using assms(1) by (intro Min_insert) simp_all
  then show ?thesis using le by (simp only: min_def) simp
qed

lemma fold_max_below:
  assumes "xs \<noteq> []" and "(a::int) \<le> Min (set xs)"
  shows "fold max xs a = Max (set xs)"
proof -
  have "Min (set xs) \<le> Max (set xs)" using assms(1) by (simp add: Min_le_Max_int)
  then have le: "a \<le> Max (set xs)" using assms(2) by linarith
  have "fold max xs a = max a (Max (set xs))"
    unfolding fold_max_Max using assms(1) by (intro Max_insert) simp_all
  then show ?thesis using le by (simp only: max_def) simp
qed

text \<open>
  For landmark points that lie within the full image, the box that the loop of \<open>Center\<close>
  computes is their bounding box.
\<close>

lemma Center_box_bounding_box:
  assumes "ps \<noteq> []" and "inside (bounding_box ps) bounds"
  shows "Center_box ps bounds = bounding_box ps"
  using assms
  by (simp add: Center_box_def foldl_Center_step bounding_box_def inside_def
      fold_min_above fold_max_below)

lemma Center_rect_eq: "Center_rect ps bounds = insideOf (square (Center_box ps bounds)) bounds"
  by (simp add: Center_rect_def)

lemma insideOf_inside:
  assumes "Dx rect \<le> Dx bounds" and "Dy rect \<le> Dy bounds"
  shows "inside (insideOf rect bounds) bounds"
  using assms by (simp add: insideOf_def inside_def Dx_def Dy_def Let_def)

lemma Bounds_Draw: "Bounds (Draw dst r src sp) = Bounds dst"
  by (simp add: Draw_def)

lemma Bounds_blank: "Bounds (blank r) = r"
  by (simp add: blank_def)

text \<open>
  C10, as it is stated, fails in its last part. One landmark at \<open>(250, 100)\<close>, outside a
  full image of 200 by 200: the loop of \<open>Center\<close>, which starts from the corners of the
  image, computes the box \<open>(200, 100)-(250, 100)\<close>, and the crop rectangle has side 50, where
  the bounding box of the landmark is 0 by 0.
\<close>

theorem Center_rect_side_not_bounding_box:
  "Center_box [\<lparr>X = 250, Y = 100\<rparr>] \<lparr>Min_pt = \<lparr>X = 0, Y = 0\<rparr>, Max_pt = \<lparr>X = 200, Y = 200\<rparr>\<rparr>
     = \<lparr>Min_pt = \<lparr>X = 200, Y = 100\<rparr>, Max_pt = \<lparr>X = 250, Y = 100\<rparr>\<rparr> \<and>
   Center_rect [\<lparr>X = 250, Y = 100\<rparr>] \<lparr>Min_pt = \<lparr>X = 0, Y = 0\<rparr>, Max_pt = \<lparr>X = 200, Y = 200\<rparr>\<rparr>
     = \<lparr>Min_pt = \<lparr>X = 150, Y = 75\<rparr>, Max_pt = \<lparr>X = 200, Y = 125\<rparr>\<rparr> \<and>
   Dx (Center_rect [\<lparr>X = 250, Y = 100\<rparr>]
         \<lparr>Min_pt = \<lparr>X = 0, Y = 0\<rparr>, Max_pt = \<lparr>X = 200, Y = 200\<rparr>\<rparr>) = 50 \<and>
   bounding_box [\<lparr>X = 250, Y = 100\<rparr>]
     = \<lparr>Min_pt = \<lparr>X = 250, Y = 100\<rparr>, Max_pt = \<lparr>X = 250, Y = 100\<rparr>\<rparr> \<and>
   max (Dx (bounding_box [\<lparr>X = 250, Y = 100\<rparr>])) (Dy (bounding_box [\<lparr>X = 250, Y = 100\<rparr>])) = 0"
  by (simp add: bounding_box_def Center_rect_def Center_box_def Center_step_def square_def
      insideOf_def quo_def Let_def Dx_def Dy_def)

text \<open>
  C10, amended. \<open>insideOf\<close> returns a rectangle of exactly the width and the height of the
  rectangle it is given, whatever the bounds: it translates and never shrinks. With
  \<open>square\<close>, the crop rectangle of \<open>Center\<close> therefore has both sides equal to the larger
  dimension of the box that the loop of \<open>Center\<close> computes from the landmark points, whether
  or not such a square fits in the full image; and that box is the bounding box of the
  landmark points whenever there is a point and their bounding box lies within the full
  image.
\<close>

theorem insideOf_keeps_size:
  "Dx (insideOf rect bounds) = Dx rect \<and> Dy (insideOf rect bounds) = Dy rect \<and>
   Dx (Center_rect ps bounds) = max (Dx (Center_box ps bounds)) (Dy (Center_box ps bounds)) \<and>
   Dy (Center_rect ps bounds) = max (Dx (Center_box ps bounds)) (Dy (Center_box ps bounds)) \<and>
   (ps \<noteq> [] \<and> inside (bounding_box ps) bounds \<longrightarrow>
      Dx (Center_rect ps bounds) = max (Dx (bounding_box ps)) (Dy (bounding_box ps)) \<and>
      Dy (Center_rect ps bounds) = max (Dx (bounding_box ps)) (Dy (bounding_box ps)))"
  by (simp add: Center_rect_eq insideOf_Dx insideOf_Dy square_Dx square_Dy
      Center_box_bounding_box)

text \<open>
  The witness: two landmark points 10 apart horizontally and 2 apart vertically, in a
  full image of 10 by 4. The square of side 10 does not fit, and the crop rectangle is
  10 by 10 all the same.
\<close>

theorem insideOf_keeps_size_witness:
  "[\<lparr>X = 0, Y = 1\<rparr>, \<lparr>X = 10, Y = 3\<rparr>] \<noteq> [] \<and>
   inside (bounding_box [\<lparr>X = 0, Y = 1\<rparr>, \<lparr>X = 10, Y = 3\<rparr>])
     \<lparr>Min_pt = \<lparr>X = 0, Y = 0\<rparr>, Max_pt = \<lparr>X = 10, Y = 4\<rparr>\<rparr> \<and>
   Dx (Center_rect [\<lparr>X = 0, Y = 1\<rparr>, \<lparr>X = 10, Y = 3\<rparr>]
         \<lparr>Min_pt = \<lparr>X = 0, Y = 0\<rparr>, Max_pt = \<lparr>X = 10, Y = 4\<rparr>\<rparr>) = 10 \<and>
   Dy (Center_rect [\<lparr>X = 0, Y = 1\<rparr>, \<lparr>X = 10, Y = 3\<rparr>]
         \<lparr>Min_pt = \<lparr>X = 0, Y = 0\<rparr>, Max_pt = \<lparr>X = 10, Y = 4\<rparr>\<rparr>) = 10"
proof -
  have h: "[\<lparr>X = 0, Y = 1\<rparr>, \<lparr>X = 10, Y = 3\<rparr>] \<noteq> [] \<and>
      inside (bounding_box [\<lparr>X = 0, Y = 1\<rparr>, \<lparr>X = 10, Y = 3\<rparr>])
        \<lparr>Min_pt = \<lparr>X = 0, Y = 0\<rparr>, Max_pt = \<lparr>X = 10, Y = 4\<rparr>\<rparr>"
    by (simp add: inside_def bounding_box_def)
  have b: "max (Dx (bounding_box [\<lparr>X = 0, Y = 1\<rparr>, \<lparr>X = 10, Y = 3\<rparr>]))
             (Dy (bounding_box [\<lparr>X = 0, Y = 1\<rparr>, \<lparr>X = 10, Y = 3\<rparr>])) = 10"
    by (simp add: bounding_box_def Dx_def Dy_def)
  note t = insideOf_keeps_size [where ps = "[\<lparr>X = 0, Y = 1\<rparr>, \<lparr>X = 10, Y = 3\<rparr>]"
        and bounds = "\<lparr>Min_pt = \<lparr>X = 0, Y = 0\<rparr>, Max_pt = \<lparr>X = 10, Y = 4\<rparr>\<rparr>"]
  from t h have d:
    "Dx (Center_rect [\<lparr>X = 0, Y = 1\<rparr>, \<lparr>X = 10, Y = 3\<rparr>]
         \<lparr>Min_pt = \<lparr>X = 0, Y = 0\<rparr>, Max_pt = \<lparr>X = 10, Y = 4\<rparr>\<rparr>)
       = max (Dx (bounding_box [\<lparr>X = 0, Y = 1\<rparr>, \<lparr>X = 10, Y = 3\<rparr>]))
             (Dy (bounding_box [\<lparr>X = 0, Y = 1\<rparr>, \<lparr>X = 10, Y = 3\<rparr>])) \<and>
     Dy (Center_rect [\<lparr>X = 0, Y = 1\<rparr>, \<lparr>X = 10, Y = 3\<rparr>]
         \<lparr>Min_pt = \<lparr>X = 0, Y = 0\<rparr>, Max_pt = \<lparr>X = 10, Y = 4\<rparr>\<rparr>)
       = max (Dx (bounding_box [\<lparr>X = 0, Y = 1\<rparr>, \<lparr>X = 10, Y = 3\<rparr>]))
             (Dy (bounding_box [\<lparr>X = 0, Y = 1\<rparr>, \<lparr>X = 10, Y = 3\<rparr>]))"
    by blast
  show ?thesis
    using h d unfolding b by blast
qed

text \<open>
  C1, as the specification states it, fails: the bounding box of the landmark points
  \<open>(0, 0)\<close> and \<open>(10, 2)\<close> lies within the bounds \<open>(0, 0)-(10, 4)\<close> of the full image, and
  the rectangle that \<open>Center\<close> crops, \<open>(0, -6)-(10, 4)\<close>, is square and not within them.
\<close>

theorem Center_rect_not_inside:
  "inside (bounding_box [\<lparr>X = 0, Y = 0\<rparr>, \<lparr>X = 10, Y = 2\<rparr>])
     \<lparr>Min_pt = \<lparr>X = 0, Y = 0\<rparr>, Max_pt = \<lparr>X = 10, Y = 4\<rparr>\<rparr> \<and>
   Center_rect [\<lparr>X = 0, Y = 0\<rparr>, \<lparr>X = 10, Y = 2\<rparr>]
     \<lparr>Min_pt = \<lparr>X = 0, Y = 0\<rparr>, Max_pt = \<lparr>X = 10, Y = 4\<rparr>\<rparr>
     = \<lparr>Min_pt = \<lparr>X = 0, Y = - 6\<rparr>, Max_pt = \<lparr>X = 10, Y = 4\<rparr>\<rparr> \<and>
   \<not> inside (Center_rect [\<lparr>X = 0, Y = 0\<rparr>, \<lparr>X = 10, Y = 2\<rparr>]
               \<lparr>Min_pt = \<lparr>X = 0, Y = 0\<rparr>, Max_pt = \<lparr>X = 10, Y = 4\<rparr>\<rparr>)
     \<lparr>Min_pt = \<lparr>X = 0, Y = 0\<rparr>, Max_pt = \<lparr>X = 10, Y = 4\<rparr>\<rparr>"
  by (simp add: inside_def bounding_box_def Center_rect_def Center_box_def Center_step_def
      square_def insideOf_def quo_def Let_def)

text \<open>
  C1, amended. For every landmark point set whose bounding box lies within the bounds of
  the full image and is no wider and no higher than the smaller side of the full image,
  the rectangle of \<open>Center\<close>, which is \<open>insideOf (square bbox) bounds\<close>, is square and lies
  within the bounds of the full image.
\<close>

theorem Center_rect_square_inside:
  assumes "ps \<noteq> []"
    and "inside (bounding_box ps) bounds"
    and "max (Dx (bounding_box ps)) (Dy (bounding_box ps)) \<le> min (Dx bounds) (Dy bounds)"
  shows "Center_rect ps bounds = insideOf (square (bounding_box ps)) bounds \<and>
         Dx (Center_rect ps bounds) = Dy (Center_rect ps bounds) \<and>
         inside (Center_rect ps bounds) bounds"
proof -
  have box: "Center_box ps bounds = bounding_box ps"
    using assms(1,2) by (rule Center_box_bounding_box)
  have "Dx (square (bounding_box ps)) \<le> Dx bounds" "Dy (square (bounding_box ps)) \<le> Dy bounds"
    using assms(3) by (simp_all add: square_Dx square_Dy)
  then have "inside (insideOf (square (bounding_box ps)) bounds) bounds"
    by (rule insideOf_inside)
  then show ?thesis
    by (simp add: Center_rect_eq box insideOf_Dx insideOf_Dy square_Dx square_Dy)
qed

text \<open>
  The witness: the points \<open>(0, 1)\<close> and \<open>(8, 2)\<close> in a full image of 10 by 10. The square
  \<open>(0, -2)-(8, 6)\<close> crosses the upper edge and is moved to \<open>(0, 0)-(8, 8)\<close>.
\<close>

theorem Center_rect_square_inside_witness:
  "[\<lparr>X = 0, Y = 1\<rparr>, \<lparr>X = 8, Y = 2\<rparr>] \<noteq> [] \<and>
   inside (bounding_box [\<lparr>X = 0, Y = 1\<rparr>, \<lparr>X = 8, Y = 2\<rparr>])
     \<lparr>Min_pt = \<lparr>X = 0, Y = 0\<rparr>, Max_pt = \<lparr>X = 10, Y = 10\<rparr>\<rparr> \<and>
   max (Dx (bounding_box [\<lparr>X = 0, Y = 1\<rparr>, \<lparr>X = 8, Y = 2\<rparr>]))
       (Dy (bounding_box [\<lparr>X = 0, Y = 1\<rparr>, \<lparr>X = 8, Y = 2\<rparr>]))
     \<le> min (Dx \<lparr>Min_pt = \<lparr>X = 0, Y = 0\<rparr>, Max_pt = \<lparr>X = 10, Y = 10\<rparr>\<rparr>)
           (Dy \<lparr>Min_pt = \<lparr>X = 0, Y = 0\<rparr>, Max_pt = \<lparr>X = 10, Y = 10\<rparr>\<rparr>) \<and>
   Center_rect [\<lparr>X = 0, Y = 1\<rparr>, \<lparr>X = 8, Y = 2\<rparr>]
     \<lparr>Min_pt = \<lparr>X = 0, Y = 0\<rparr>, Max_pt = \<lparr>X = 10, Y = 10\<rparr>\<rparr>
     = \<lparr>Min_pt = \<lparr>X = 0, Y = 0\<rparr>, Max_pt = \<lparr>X = 8, Y = 8\<rparr>\<rparr> \<and>
   inside (Center_rect [\<lparr>X = 0, Y = 1\<rparr>, \<lparr>X = 8, Y = 2\<rparr>]
             \<lparr>Min_pt = \<lparr>X = 0, Y = 0\<rparr>, Max_pt = \<lparr>X = 10, Y = 10\<rparr>\<rparr>)
     \<lparr>Min_pt = \<lparr>X = 0, Y = 0\<rparr>, Max_pt = \<lparr>X = 10, Y = 10\<rparr>\<rparr>"
proof -
  have h1: "[\<lparr>X = 0, Y = 1\<rparr>, \<lparr>X = 8, Y = 2\<rparr>] \<noteq> []" by simp
  have h2: "inside (bounding_box [\<lparr>X = 0, Y = 1\<rparr>, \<lparr>X = 8, Y = 2\<rparr>])
      \<lparr>Min_pt = \<lparr>X = 0, Y = 0\<rparr>, Max_pt = \<lparr>X = 10, Y = 10\<rparr>\<rparr>"
    by (simp add: inside_def bounding_box_def)
  have h3: "max (Dx (bounding_box [\<lparr>X = 0, Y = 1\<rparr>, \<lparr>X = 8, Y = 2\<rparr>]))
       (Dy (bounding_box [\<lparr>X = 0, Y = 1\<rparr>, \<lparr>X = 8, Y = 2\<rparr>]))
     \<le> min (Dx \<lparr>Min_pt = \<lparr>X = 0, Y = 0\<rparr>, Max_pt = \<lparr>X = 10, Y = 10\<rparr>\<rparr>)
           (Dy \<lparr>Min_pt = \<lparr>X = 0, Y = 0\<rparr>, Max_pt = \<lparr>X = 10, Y = 10\<rparr>\<rparr>)"
    by (simp add: bounding_box_def Dx_def Dy_def)
  have v: "insideOf (square (bounding_box [\<lparr>X = 0, Y = 1\<rparr>, \<lparr>X = 8, Y = 2\<rparr>]))
      \<lparr>Min_pt = \<lparr>X = 0, Y = 0\<rparr>, Max_pt = \<lparr>X = 10, Y = 10\<rparr>\<rparr>
      = \<lparr>Min_pt = \<lparr>X = 0, Y = 0\<rparr>, Max_pt = \<lparr>X = 8, Y = 8\<rparr>\<rparr>"
    by (simp add: bounding_box_def square_def insideOf_def quo_def Let_def)
  note t = Center_rect_square_inside [OF h1 h2 h3]
  have c: "Center_rect [\<lparr>X = 0, Y = 1\<rparr>, \<lparr>X = 8, Y = 2\<rparr>]
      \<lparr>Min_pt = \<lparr>X = 0, Y = 0\<rparr>, Max_pt = \<lparr>X = 10, Y = 10\<rparr>\<rparr>
      = \<lparr>Min_pt = \<lparr>X = 0, Y = 0\<rparr>, Max_pt = \<lparr>X = 8, Y = 8\<rparr>\<rparr>"
    using t v by simp
  show ?thesis
    using h1 h2 h3 c t by blast
qed

section \<open>Properties of the index loops\<close>

lemma index_Some: "0 \<le> i \<Longrightarrow> i < int (length xs) \<Longrightarrow> index xs i = Some (xs ! nat i)"
  by (simp add: index_def)

lemma map_upt_Suc_shift: "map f [0..<Suc n] = f 0 # map (\<lambda>k. f (Suc k)) [0..<n]"
  by (simp add: map_upt_Suc del: upt_Suc)

lemma PointsOnImage_loop_eq:
  "0 \<le> i \<Longrightarrow>
   PointsOnImage_loop ops w h minX minY coords i points =
     Some (points @
       map (\<lambda>k. \<lparr>X = minX + f_to_int ops (f_mul ops w (coords ! (nat i + 2 * k))),
                  Y = minY + f_to_int ops (f_mul ops h (coords ! (nat i + 2 * k + 1)))\<rparr>)
         [0..<(length coords - nat i) div 2])"
proof (induction ops w h minX minY coords i points rule: PointsOnImage_loop.induct)
  case (1 ops w h minX minY coords i points)
  show ?case
  proof (cases "i < int (length coords) - 1")
    case False
    with 1(2) have "(length coords - nat i) div 2 = 0" by auto
    with False show ?thesis by (simp add: PointsOnImage_loop.simps [of _ _ _ _ _ _ i])
  next
    case True
    with 1(2) have ix: "index coords i = Some (coords ! nat i)"
      and iy: "index coords (i + 1) = Some (coords ! (nat i + 1))"
      by (simp_all add: index_def nat_add_distrib)
    have n: "(length coords - nat i) div 2 = Suc ((length coords - nat (i + 2)) div 2)"
      using True 1(2) by (simp add: nat_add_distrib)
    have i2: "nat (i + 2) = nat i + 2" using 1(2) by (simp add: nat_add_distrib)
    have IH: "PointsOnImage_loop ops w h minX minY coords (i + 2)
        (points @ [\<lparr>X = minX + f_to_int ops (f_mul ops w (coords ! nat i)),
                     Y = minY + f_to_int ops (f_mul ops h (coords ! (nat i + 1)))\<rparr>]) =
      Some ((points @ [\<lparr>X = minX + f_to_int ops (f_mul ops w (coords ! nat i)),
                     Y = minY + f_to_int ops (f_mul ops h (coords ! (nat i + 1)))\<rparr>]) @
       map (\<lambda>k. \<lparr>X = minX + f_to_int ops (f_mul ops w (coords ! (nat (i + 2) + 2 * k))),
                  Y = minY + f_to_int ops (f_mul ops h (coords ! (nat (i + 2) + 2 * k + 1)))\<rparr>)
         [0..<(length coords - nat (i + 2)) div 2])"
      using 1(1) [OF True _ ix iy] 1(2) by simp
    show ?thesis
      apply (subst PointsOnImage_loop.simps)
      apply (simp only: True if_True ix iy prod.case option.case IH n map_upt_Suc_shift i2)
      apply simp
      done
  qed
qed


lemma DistanceTo_loop_eq:
  "0 \<le> i \<Longrightarrow> length d = length d2 \<Longrightarrow>
   DistanceTo_loop ops d d2 i sum_acc =
     Some (foldl (\<lambda>s k. f_add ops s (f_mul ops (f_sub ops (d ! k) (d2 ! k)) (f_sub ops (d ! k) (d2 ! k))))
             sum_acc [nat i..<length d])"
proof (induction ops d d2 i sum_acc rule: DistanceTo_loop.induct)
  case (1 ops d d2 i sum_acc)
  show ?case
  proof (cases "i < int (length d)")
    case False
    then show ?thesis by (simp add: DistanceTo_loop.simps [of _ _ _ i])
  next
    case True
    with 1(2,3) have ix: "index d i = Some (d ! nat i)" and iy: "index d2 i = Some (d2 ! nat i)"
      by (simp_all add: index_def)
    have u: "[nat i..<length d] = nat i # [nat (i + 1)..<length d]"
      using True 1(2) by (simp add: upt_conv_Cons nat_add_distrib)
    have i0: "0 \<le> i + 1" using 1(2) by simp
    note IH = 1(1) [OF True _ ix iy i0 1(3)]
    show ?thesis
      apply (subst DistanceTo_loop.simps)
      apply (simp only: True if_True ix iy prod.case option.case)
      apply (subst IH)
       apply simp
      apply (simp only: u foldl_Cons)
      done
  qed
qed

text \<open>
  C6. \<open>DistanceTo\<close> on descriptors of unequal lengths returns the dimension error (with
  both lengths) and the value 0; on descriptors of equal lengths it returns a value and no
  error: the loop reads both slices within their range, so there is no panic, and no
  element is dropped or added. It fails if and only if the lengths differ.
\<close>

theorem DistanceTo_dimensions:
  "(length d \<noteq> length d2 \<longrightarrow>
      DistanceTo ops d d2 =
        Some (f_of_int ops 0,
          Some (Errorf ''cannot calculate distance between descriptors of dimensions %d and %d''
                  [int (length d), int (length d2)]))) \<and>
   (length d = length d2 \<longrightarrow>
      DistanceTo ops d d2 =
        Some (f_sqrt ops
                (foldl (\<lambda>s k. f_add ops s
                          (f_mul ops (f_sub ops (d ! k) (d2 ! k)) (f_sub ops (d ! k) (d2 ! k))))
                   (f_of_int ops 0) [0..<length d]),
              None))"
  by (simp add: DistanceTo_def DistanceTo_loop_eq)

lemma sqrt25: "sqrt 25 = 5"
  using real_sqrt_abs [of 5] by simp

text \<open>The witness: lengths 2 and 1, and the vectors \<open>[0, 0, 0]\<close> and \<open>[3, 4, 0]\<close>.\<close>

theorem DistanceTo_dimensions_witness:
  "length [1, 2 :: real] \<noteq> length [1 :: real] \<and>
   DistanceTo exact_ops [1, 2] [1] =
     Some (0, Some (Errorf ''cannot calculate distance between descriptors of dimensions %d and %d'' [2, 1])) \<and>
   length [0, 0, 0 :: real] = length [3, 4, 0 :: real] \<and>
   DistanceTo exact_ops [0, 0, 0] [3, 4, 0] = Some (5, None)"
proof -
  have u: "[0..<3] = [0, 1, 2]" by (simp add: upt_rec)
  show ?thesis
    using DistanceTo_dimensions [of "[1, 2 :: real]" "[1]" exact_ops]
      DistanceTo_dimensions [of "[0, 0, 0 :: real]" "[3, 4, 0]" exact_ops]
    by (simp add: exact_ops_def u sqrt25)
qed

lemma PointsOnImage_eq:
  "PointsOnImage ops l img =
     Some (map (\<lambda>k. \<lparr>X = X (Min_pt (Bounds img)) +
                        f_to_int ops (f_mul ops (f_of_int ops (Dx (Bounds img))) (Coords l ! (2 * k))),
                      Y = Y (Min_pt (Bounds img)) +
                        f_to_int ops (f_mul ops (f_of_int ops (Dy (Bounds img))) (Coords l ! (2 * k + 1)))\<rparr>)
             [0..<length (Coords l) div 2])"
  by (simp add: PointsOnImage_def Let_def PointsOnImage_loop_eq)

text \<open>
  C9. \<open>PointsOnImage\<close> returns, for every coordinate slice and every image, exactly
  \<open>length Coords div 2\<close> points and never reads out of range: the last coordinate of a
  slice of odd length is ignored. Point \<open>k\<close> is the minimum corner of the image moved by the
  truncated products \<open>int(w * Coords[2k])\<close> and \<open>int(h * Coords[2k+1])\<close>.
\<close>

theorem PointsOnImage_points:
  "PointsOnImage ops l img =
     Some (map (\<lambda>k. \<lparr>X = X (Min_pt (Bounds img)) +
                        f_to_int ops (f_mul ops (f_of_int ops (Dx (Bounds img))) (Coords l ! (2 * k))),
                      Y = Y (Min_pt (Bounds img)) +
                        f_to_int ops (f_mul ops (f_of_int ops (Dy (Bounds img))) (Coords l ! (2 * k + 1)))\<rparr>)
             [0..<length (Coords l) div 2]) \<and>
   (\<exists>points. PointsOnImage ops l img = Some points \<and> length points = length (Coords l) div 2)"
  by (simp add: PointsOnImage_def Let_def PointsOnImage_loop_eq)

text \<open>Three coordinates on an image of 100 by 200 at \<open>(10, 20)\<close>: one point, the third is ignored.\<close>

lemma PointsOnImage_odd_example:
  "PointsOnImage exact_ops \<lparr>Coords = [1 / 2, 1 / 4, 3 / 4]\<rparr>
     \<lparr>Bounds = \<lparr>Min_pt = \<lparr>X = 10, Y = 20\<rparr>, Max_pt = \<lparr>X = 110, Y = 220\<rparr>\<rparr>,
      At = (\<lambda>x y. 0 :: nat)\<rparr> = Some [\<lparr>X = 60, Y = 70\<rparr>]"
  by (simp add: PointsOnImage_eq exact_ops_def Dx_def Dy_def)

section \<open>The distance of descriptors\<close>

lemma upt_1: "[0..<1] = [0]"
  by simp

lemma foldl_add_sum:
  "foldl (\<lambda>s k. s + f k) (a::real) [0..<n] = a + (\<Sum>k<n. f k)"
  by (induction n) simp_all

lemma foldl_cong_upt:
  "(\<And>k. k < n \<Longrightarrow> f k = g k) \<Longrightarrow> foldl (\<lambda>s k. h s (f k)) a [0..<n] = foldl (\<lambda>s k. h s (g k)) a [0..<n]"
  by (induction n) simp_all

lemma foldl_zero:
  assumes "\<And>k. k < n \<Longrightarrow> f k = z" and "h z z = z"
  shows "foldl (\<lambda>s k. h s (f k)) z [0..<n] = z"
  using assms(1) by (induction n) (simp_all add: assms(2))

lemma DistanceTo_eq:
  "length d = length d2 \<Longrightarrow>
   DistanceTo ops d d2 =
     Some (f_sqrt ops
             (foldl (\<lambda>s k. f_add ops s
                       (f_mul ops (f_sub ops (d ! k) (d2 ! k)) (f_sub ops (d ! k) (d2 ! k))))
                (f_of_int ops 0) [0..<length d]),
           None)"
  by (simp add: DistanceTo_def DistanceTo_loop_eq)

lemma DistanceTo_exact:
  assumes "length ra = length rb"
  shows "DistanceTo exact_ops ra rb = Some (sqrt (\<Sum>k<length ra. (ra ! k - rb ! k)\<^sup>2), None)"
proof -
  have "foldl (\<lambda>s k. s + (ra ! k - rb ! k) * (ra ! k - rb ! k)) 0 [0..<length ra]
      = (\<Sum>k<length ra. (ra ! k - rb ! k)\<^sup>2)"
    by (simp add: foldl_add_sum power2_eq_square)
  then show ?thesis
    by (simp add: DistanceTo_eq [OF assms] exact_ops_def)
qed

lemma DistanceTo_symmetric:
  assumes "length a = length b"
    and "\<forall>k<length a. f_mul ops (f_sub ops (a ! k) (b ! k)) (f_sub ops (a ! k) (b ! k)) =
                       f_mul ops (f_sub ops (b ! k) (a ! k)) (f_sub ops (b ! k) (a ! k))"
  shows "DistanceTo ops a b = DistanceTo ops b a"
proof -
  have "foldl (\<lambda>s k. f_add ops s (f_mul ops (f_sub ops (a ! k) (b ! k)) (f_sub ops (a ! k) (b ! k))))
          (f_of_int ops 0) [0..<length a]
      = foldl (\<lambda>s k. f_add ops s (f_mul ops (f_sub ops (b ! k) (a ! k)) (f_sub ops (b ! k) (a ! k))))
          (f_of_int ops 0) [0..<length a]"
    using assms(2) by (intro foldl_cong_upt) simp
  then show ?thesis
    using assms(1) by (simp add: DistanceTo_eq)
qed

lemma DistanceTo_self:
  assumes "\<forall>x \<in> set a. f_sub ops x x = f_of_int ops 0"
    and "f_mul ops (f_of_int ops 0) (f_of_int ops 0) = f_of_int ops 0"
    and "f_add ops (f_of_int ops 0) (f_of_int ops 0) = f_of_int ops 0"
    and "f_sqrt ops (f_of_int ops 0) = f_of_int ops 0"
  shows "DistanceTo ops a a = Some (f_of_int ops 0, None)"
proof -
  have "foldl (\<lambda>s k. f_add ops s (f_mul ops (f_sub ops (a ! k) (a ! k)) (f_sub ops (a ! k) (a ! k))))
          (f_of_int ops 0) [0..<length a] = f_of_int ops 0"
    using assms(1,2) by (intro foldl_zero assms(3)) simp
  then show ?thesis
    by (simp add: DistanceTo_eq assms(4))
qed

text \<open>
  C5, as it is stated, fails: the distance is computed in \<open>float32\<close>. With an infinite
  component, or one that is not a number, \<open>a[i] - a[i]\<close> is not a number, and so are its
  square, the sum and the square root: the distance of \<open>a\<close> to itself is not 0.
\<close>

theorem DistanceTo_not_a_number:
  "DistanceTo special_ops [PosInf] [PosInf] = Some (NaN, None) \<and>
   DistanceTo special_ops [NaN] [NaN] = Some (NaN, None)"
  by (simp add: DistanceTo_def DistanceTo_loop_eq special_ops_def x_sub_def)

text \<open>
  C5, amended. For descriptors of equal lengths \<open>DistanceTo\<close> succeeds and returns the
  square root of the sum, taken from left to right from 0, of the squared differences,
  with no normalisation and no weight, all in \<open>float32\<close>. Where the arithmetic is exact,
  that is the Euclidean distance, the distance of \<open>a\<close> to \<open>b\<close> is that of \<open>b\<close> to \<open>a\<close>,
  the distance of \<open>a\<close> to itself is 0, and \<open>[0, 0, 0]\<close> and \<open>[3, 4, 0]\<close> are at distance 5.
  In any arithmetic, the two distances agree when each squared difference is the same
  in both orders, and the distance of \<open>a\<close> to itself is 0 when \<open>x - x\<close> is 0 for every
  component \<open>x\<close>, and \<open>0 * 0\<close>, \<open>0 + 0\<close> and the square root of 0 are 0.
\<close>

theorem DistanceTo_euclidean:
  "(length a = length b \<longrightarrow>
      DistanceTo ops a b =
        Some (f_sqrt ops
                (foldl (\<lambda>s k. f_add ops s
                          (f_mul ops (f_sub ops (a ! k) (b ! k)) (f_sub ops (a ! k) (b ! k))))
                   (f_of_int ops 0) [0..<length a]),
              None)) \<and>
   (length ra = length rb \<longrightarrow>
      DistanceTo exact_ops ra rb = Some (sqrt (\<Sum>k<length ra. (ra ! k - rb ! k)\<^sup>2), None) \<and>
      DistanceTo exact_ops ra rb = DistanceTo exact_ops rb ra) \<and>
   DistanceTo exact_ops ra ra = Some (0, None) \<and>
   DistanceTo exact_ops [0, 0, 0] [3, 4, 0] = Some (5, None) \<and>
   (length a = length b \<and>
    (\<forall>k<length a. f_mul ops (f_sub ops (a ! k) (b ! k)) (f_sub ops (a ! k) (b ! k)) =
                    f_mul ops (f_sub ops (b ! k) (a ! k)) (f_sub ops (b ! k) (a ! k))) \<longrightarrow>
      DistanceTo ops a b = DistanceTo ops b a) \<and>
   ((\<forall>x \<in> set a. f_sub ops x x = f_of_int ops 0) \<and>
    f_mul ops (f_of_int ops 0) (f_of_int ops 0) = f_of_int ops 0 \<and>
    f_add ops (f_of_int ops 0) (f_of_int ops 0) = f_of_int ops 0 \<and>
    f_sqrt ops (f_of_int ops 0) = f_of_int ops 0 \<longrightarrow>
      DistanceTo ops a a = Some (f_of_int ops 0, None))"
proof -
  have 1: "DistanceTo exact_ops ra rb = DistanceTo exact_ops rb ra" if "length ra = length rb"
    using that by (intro DistanceTo_symmetric) (simp_all add: exact_ops_def algebra_simps)
  have 2: "DistanceTo exact_ops ra ra = Some (0, None)"
    using DistanceTo_self [of ra exact_ops] by (simp add: exact_ops_def)
  have 3: "DistanceTo exact_ops [0, 0, 0] [3, 4, 0] = Some (5, None)"
    by (simp add: DistanceTo_exact lessThan_nat_numeral lessThan_Suc sqrt25)
  show ?thesis
    using 1 2 3 DistanceTo_eq [of a b ops] DistanceTo_exact [of ra rb]
      DistanceTo_symmetric [of a b ops] DistanceTo_self [of a ops]
    by blast
qed

text \<open>
  The witness, in the arithmetic with special values and in the exact one: the vectors
  \<open>[1, 2]\<close> and \<open>[4, 6]\<close>, at distance 5 in both orders.
\<close>

theorem DistanceTo_euclidean_witness:
  "length [Finite 1, Finite 2] = length [Finite 4, Finite 6] \<and>
   DistanceTo special_ops [Finite 1, Finite 2] [Finite 4, Finite 6] = Some (Finite 5, None) \<and>
   DistanceTo special_ops [Finite 4, Finite 6] [Finite 1, Finite 2] = Some (Finite 5, None) \<and>
   DistanceTo special_ops [Finite 1, Finite 2] [Finite 1, Finite 2] = Some (Finite 0, None) \<and>
   length [1, 2 :: real] = length [4, 6 :: real] \<and>
   DistanceTo exact_ops [1, 2] [4, 6] = Some (5, None) \<and>
   DistanceTo exact_ops [4, 6] [1, 2] = Some (5, None)"
proof -
  let ?a = "[Finite 1, Finite 2]" and ?b = "[Finite 4, Finite 6]"
  note t = DistanceTo_euclidean [of ?a ?b special_ops "[1, 2]" "[4, 6]"]
  have u: "[0..<2] = [0, 1]" by (simp add: upt_rec)
  have l: "length ?a = length ?b" "length [1, 2 :: real] = length [4, 6 :: real]" by simp_all
  have sym: "\<forall>k<length ?a.
      f_mul special_ops (f_sub special_ops (?a ! k) (?b ! k)) (f_sub special_ops (?a ! k) (?b ! k)) =
      f_mul special_ops (f_sub special_ops (?b ! k) (?a ! k)) (f_sub special_ops (?b ! k) (?a ! k))"
    by (simp add: special_ops_def x_sub_def less_Suc_eq numeral_2_eq_2)
  have z: "(\<forall>x \<in> set ?a. f_sub special_ops x x = f_of_int special_ops 0) \<and>
      f_mul special_ops (f_of_int special_ops 0) (f_of_int special_ops 0) = f_of_int special_ops 0 \<and>
      f_add special_ops (f_of_int special_ops 0) (f_of_int special_ops 0) = f_of_int special_ops 0 \<and>
      f_sqrt special_ops (f_of_int special_ops 0) = f_of_int special_ops 0"
    by (simp add: special_ops_def x_sub_def)
  from t l have "DistanceTo special_ops ?a ?b =
      Some (f_sqrt special_ops
              (foldl (\<lambda>s k. f_add special_ops s
                        (f_mul special_ops (f_sub special_ops (?a ! k) (?b ! k))
                           (f_sub special_ops (?a ! k) (?b ! k))))
                 (f_of_int special_ops 0) [0..<length ?a]),
            None)"
    by blast
  then have 1: "DistanceTo special_ops ?a ?b = Some (Finite 5, None)"
    by (simp add: u special_ops_def x_sub_def sqrt25)
  from t l sym have "DistanceTo special_ops ?a ?b = DistanceTo special_ops ?b ?a" by blast
  with 1 have 2: "DistanceTo special_ops ?b ?a = Some (Finite 5, None)" by simp
  from t z have "DistanceTo special_ops ?a ?a = Some (f_of_int special_ops 0, None)" by blast
  then have 3: "DistanceTo special_ops ?a ?a = Some (Finite 0, None)"
    by (simp add: special_ops_def)
  from t l have c: "DistanceTo exact_ops [1, 2] [4, 6]
      = Some (sqrt (\<Sum>k<length [1, 2 :: real]. ([1, 2] ! k - [4, 6] ! k)\<^sup>2), None) \<and>
    DistanceTo exact_ops [1, 2] [4, 6] = DistanceTo exact_ops [4, 6] [1, 2]"
    by blast
  from c have y: "DistanceTo exact_ops [1, 2] [4, 6] = DistanceTo exact_ops [4, 6] [1, 2]"
    by (rule conjunct2)
  from c have "DistanceTo exact_ops [1, 2] [4, 6]
      = Some (sqrt (\<Sum>k<length [1, 2 :: real]. ([1, 2] ! k - [4, 6] ! k)\<^sup>2), None)"
    by (rule conjunct1)
  then have e: "DistanceTo exact_ops [1, 2] [4, 6] = Some (5, None)"
    by (simp add: lessThan_nat_numeral lessThan_Suc sqrt25)
  note e' = e [unfolded y]
  from e e' have 4: "DistanceTo exact_ops [1, 2] [4, 6] = Some (5, None) \<and>
      DistanceTo exact_ops [4, 6] [1, 2] = Some (5, None)"
    by (rule conjI)
  from l 1 2 3 4 show ?thesis by blast
qed

section \<open>The score thresholds\<close>

text \<open>
  A \<open>float32\<close> of at least \<open>1 / 2 ^ k\<close> is a multiple of \<open>1 / 2 ^ (k + 23)\<close>. So no \<open>float32\<close>
  lies between 0.6 and the constant that the program compares with, nor between 0.4 and
  its constant: on scores, the comparisons of the program are comparisons with 0.6 and 0.4.
\<close>

lemma float32_grid:
  assumes "is_float32 x" and "1 / 2 ^ k \<le> x"
  shows "\<exists>j::int. x = of_int j / 2 ^ (k + 23)"
proof -
  from assms(1) obtain m e :: int where m: "\<bar>m\<bar> < 2 ^ 24" and x: "x = of_int m * 2 powi e"
    unfolding is_float32_def by blast
  have "(0::real) < 1 / 2 ^ k" by simp
  then have xpos: "0 < x" using assms(2) by linarith
  have p: "(0::real) < 2 powi e" by simp
  have mpos: "0 < m"
  proof (rule ccontr)
    assume "\<not> 0 < m"
    then have "(of_int m :: real) \<le> 0" by simp
    then have "x \<le> 0" using p unfolding x by (simp add: mult_le_0_iff)
    with xpos show False by simp
  qed
  have e: "- int (k + 23) \<le> e"
  proof (rule ccontr)
    assume "\<not> - int (k + 23) \<le> e"
    then have "e \<le> - int (k + 24)" by simp
    then have le: "(2::real) powi e \<le> 2 powi (- int (k + 24))"
      by (intro power_int_increasing) simp_all
    have "(of_int m :: real) < 2 ^ 24"
      using m by (metis abs_less_iff of_int_less_numeral_power_cancel_iff)
    then have "of_int m * 2 powi e < 2 ^ 24 * (2::real) powi e"
      using p by (rule mult_strict_right_mono)
    also have "\<dots> \<le> 2 ^ 24 * 2 powi (- int (k + 24))"
      using le by (rule mult_left_mono) simp
    finally have "x < 2 ^ 24 * 2 powi (- int (k + 24))"
      unfolding x .
    also have "\<dots> = 2 ^ 24 * inverse (2 ^ (k + 24))"
      by (simp only: power_int_minus power_int_of_nat)
    also have "\<dots> = 1 / 2 ^ k"
      by (simp add: power_add field_simps)
    finally show False using assms(2) by simp
  qed
  define n where "n = nat (e + int (k + 23))"
  have en: "e = int n - int (k + 23)" using e by (simp add: n_def)
  have "(2::real) powi (int n - int (k + 23)) = 2 powi int n / 2 powi int (k + 23)"
    by (rule power_int_diff) simp
  then have "(2::real) powi e = 2 powi int n / 2 powi int (k + 23)"
    by (simp only: en)
  then have "(2::real) powi e = 2 ^ n / 2 ^ (k + 23)"
    by (simp only: power_int_of_nat)
  then have "x = of_int (m * 2 ^ n) / 2 ^ (k + 23)" unfolding x by simp
  then show ?thesis by blast
qed

lemma float32_0_6_le:
  assumes "is_float32 x"
  shows "\<not> x < float32_0_6 \<longleftrightarrow> 6 / 10 \<le> x"
proof (cases "1 / 2 ^ 1 \<le> x")
  case True
  from float32_grid [OF assms True] obtain j :: int where x: "x = of_int j / 2 ^ 24" by auto
  have "6 / 10 \<le> x \<longleftrightarrow> (6 / 10 * 2 ^ 24 :: real) \<le> of_int j"
    unfolding x by (simp add: field_simps)
  also have "\<dots> \<longleftrightarrow> 10066330 \<le> j" by (simp add: field_simps) linarith
  also have "\<dots> \<longleftrightarrow> float32_0_6 \<le> x"
    unfolding x float32_0_6_def by (simp add: field_simps)
  finally show ?thesis by auto
next
  case False
  then show ?thesis by (simp add: float32_0_6_def)
qed

lemma float32_0_4_le:
  assumes "is_float32 x"
  shows "\<not> x < float32_0_4 \<longleftrightarrow> 4 / 10 \<le> x"
proof (cases "1 / 2 ^ 2 \<le> x")
  case True
  from float32_grid [OF assms True] obtain j :: int where x: "x = of_int j / 2 ^ 25" by auto
  have "4 / 10 \<le> x \<longleftrightarrow> (4 / 10 * 2 ^ 25 :: real) \<le> of_int j"
    unfolding x by (simp add: field_simps)
  also have "\<dots> \<longleftrightarrow> 13421773 \<le> j" by (simp add: field_simps) linarith
  also have "\<dots> \<longleftrightarrow> float32_0_4 \<le> x"
    unfolding x float32_0_4_def by (simp add: field_simps)
  finally show ?thesis by auto
next
  case False
  then show ?thesis by (simp add: float32_0_4_def)
qed

lemma is_float32_0_6: "is_float32 float32_0_6"
  unfolding is_float32_def float32_0_6_def
  by (rule exI [of _ 10066330], rule exI [of _ "-24"]) (simp add: power_int_minus field_simps)

lemma is_float32_0_4: "is_float32 float32_0_4"
  unfolding is_float32_def float32_0_4_def
  by (rule exI [of _ 13421773], rule exI [of _ "-25"]) (simp add: power_int_minus field_simps)

text \<open>The two constants are the \<open>float32\<close> values nearest to 0.6 and to 0.4.\<close>

lemma float32_0_6_nearest:
  assumes "is_float32 x"
  shows "\<bar>float32_0_6 - 6 / 10\<bar> \<le> \<bar>x - 6 / 10\<bar>"
proof (cases "1 / 2 ^ 1 \<le> x")
  case True
  from float32_grid [OF assms True] obtain j :: int where x: "x = of_int j / 2 ^ 24" by auto
  have "j \<le> 10066329 \<or> 10066330 \<le> j" by linarith
  then show ?thesis
  proof
    assume "j \<le> 10066329"
    then have "(of_int j :: real) \<le> 10066329" by linarith
    then show ?thesis unfolding x float32_0_6_def by (simp add: field_simps)
  next
    assume "10066330 \<le> j"
    then have "(10066330 :: real) \<le> of_int j" by linarith
    then show ?thesis unfolding x float32_0_6_def by (simp add: field_simps)
  qed
next
  case False
  then show ?thesis by (simp add: float32_0_6_def)
qed

lemma float32_0_4_nearest:
  assumes "is_float32 x"
  shows "\<bar>float32_0_4 - 4 / 10\<bar> \<le> \<bar>x - 4 / 10\<bar>"
proof (cases "1 / 2 ^ 2 \<le> x")
  case True
  from float32_grid [OF assms True] obtain j :: int where x: "x = of_int j / 2 ^ 25" by auto
  have "j \<le> 13421772 \<or> 13421773 \<le> j" by linarith
  then show ?thesis
  proof
    assume "j \<le> 13421772"
    then have "(of_int j :: real) \<le> 13421772" by linarith
    then show ?thesis unfolding x float32_0_4_def by (simp add: field_simps)
  next
    assume "13421773 \<le> j"
    then have "(13421773 :: real) \<le> of_int j" by linarith
    then show ?thesis unfolding x float32_0_4_def by (simp add: field_simps)
  qed
next
  case False
  then show ?thesis by (simp add: float32_0_4_def)
qed

lemma is_float32_3_4: "is_float32 (3 / 4)"
  unfolding is_float32_def
  by (rule exI [of _ 3], rule exI [of _ "-2"]) (simp add: power_int_minus field_simps)

section \<open>Properties of the extractor\<close>

lemma PointsOnImage_total: "\<exists>points. PointsOnImage ops l img = Some points"
  using PointsOnImage_eq [of ops l img] by blast

lemma PointsOnImage_the: "PointsOnImage ops l img = Some (the (PointsOnImage ops l img))"
  using PointsOnImage_total [of ops l img] by auto








lemma Center_Some:
  "Center ops l cropped full = Some out \<longleftrightarrow>
     (\<exists>points. PointsOnImage ops l cropped = Some points \<and>
        \<not> (Dx (Center_rect points (Bounds full)) < 0 \<or> Dy (Center_rect points (Bounds full)) < 0) \<and>
        out = Draw (blank (Center_rect points (Bounds full)))
                (Center_rect points (Bounds full)) full
                (Min_pt (Center_rect points (Bounds full))))"
  by (auto simp: Center_def Center_rect_def Let_def NewRGBA_def blank_def split: option.splits)

lemma NewRGBA_Box: "\<not> too_small d \<Longrightarrow> NewRGBA (Box d) = Some (blank (Box d))"
  by (auto simp: too_small_def NewRGBA_def)

lemma Extract_loop_Cons_small:
  "too_small d \<Longrightarrow>
   Extract_loop ops e img (d # ds) images descrs = Extract_loop ops e img ds images descrs"
  by (simp add: too_small_def)

lemma Center_normalized:
  "\<not> Center_panics ops e img d \<Longrightarrow>
   Center ops (fst (Landmark e (crop img d))) (crop img d) img = Some (normalized ops e img d)"
  by (auto simp: Center_panics_def normalized_def)

lemma Extract_loop_Cons_big:
  assumes "\<not> too_small d"
  shows "Extract_loop ops e img (d # ds) images descrs =
     (if stops ops e img d then stopped ops e img d
      else Extract_loop ops e img ds (images @ [normalized ops e img d])
             (descrs @ [descriptor_of ops e img d]))"
proof -
  obtain l lerr where L: "Landmark e (crop img d) = (l, lerr)"
    by (cases "Landmark e (crop img d)")
  have small: "\<not> (Dx (Box d) < 45 \<or> Dy (Box d) < 45)"
    using assms by (simp add: too_small_def)
  have step: "Extract_loop ops e img (d # ds) images descrs =
      (case lerr of
         Some err \<Rightarrow> Some ([], [], Some (Wrap err ''error detecting landmarks''))
       | None \<Rightarrow>
           (case Center ops l (crop img d) img of
              None \<Rightarrow> None
            | Some cropped2 \<Rightarrow>
                (case Descriptor e cropped2 of
                   (descriptors, Some err) \<Rightarrow>
                     Some ([], [], Some (Wrap err ''error computing descriptors''))
                 | (descriptors, None) \<Rightarrow>
                     Extract_loop ops e img ds (images @ [cropped2]) (descrs @ [descriptors]))))"
    by (simp only: Extract_loop.simps small if_False NewRGBA_Box [OF assms] option.case Let_def
        crop_def [symmetric] L prod.case)
  show ?thesis
  proof (cases lerr)
    case (Some err)
    then show ?thesis
      unfolding step by (simp add: stops_def stopped_def landmark_error_def stage_error_def L)
  next
    case None
    show ?thesis
    proof (cases "Center_panics ops e img d")
      case True
      then have "Center ops l (crop img d) img = None" by (simp add: Center_panics_def L)
      then show ?thesis
        unfolding step using None True
        by (simp add: stops_def stopped_def landmark_error_def L)
    next
      case False
      from Center_normalized [OF False]
      have C: "Center ops l (crop img d) img = Some (normalized ops e img d)" by (simp add: L)
      obtain ds' derr where D: "Descriptor e (normalized ops e img d) = (ds', derr)"
        by (cases "Descriptor e (normalized ops e img d)")
      show ?thesis
        unfolding step using None False
        by (cases derr)
          (simp_all add: C D stops_def stopped_def landmark_error_def L descriptor_error_def
            descriptor_of_def stage_error_def)
    qed
  qed
qed

lemma Extract_loop_char:
  "Extract_loop ops e img ds images descrs =
     (case find (\<lambda>d. \<not> too_small d \<and> stops ops e img d) ds of
        Some d \<Rightarrow> stopped ops e img d
      | None \<Rightarrow>
          Some (images @ map (normalized ops e img) [d \<leftarrow> ds. \<not> too_small d],
                descrs @ map (descriptor_of ops e img) [d \<leftarrow> ds. \<not> too_small d],
                None))"
proof (induction ds arbitrary: images descrs)
  case Nil
  then show ?case by simp
next
  case (Cons d ds)
  show ?case
  proof (cases "too_small d")
    case True
    then show ?thesis
      by (simp add: Extract_loop_Cons_small Cons.IH del: Extract_loop.simps split: option.splits)
  next
    case False
    then show ?thesis
      by (simp add: Extract_loop_Cons_big Cons.IH del: Extract_loop.simps split: option.splits)
  qed
qed

lemma Above_float32_0_6:
  "\<forall>d \<in> set ds. is_float32 (Score d) \<Longrightarrow> Above ds float32_0_6 = [d \<leftarrow> ds. 6 / 10 \<le> Score d]"
  unfolding Above_def by (rule filter_cong) (simp_all add: float32_0_6_le)

lemma Above_float32_0_4:
  "\<forall>d \<in> set ds. is_float32 (Score d) \<Longrightarrow> Above ds float32_0_4 = [d \<leftarrow> ds. 4 / 10 \<le> Score d]"
  unfolding Above_def by (rule filter_cong) (simp_all add: float32_0_4_le)

lemma Extract_loop_filter:
  "Extract_loop ops e img ds images descrs =
   Extract_loop ops e img [d \<leftarrow> ds. \<not> too_small d] images descrs"
proof (induction ds arbitrary: images descrs)
  case Nil
  then show ?case by simp
next
  case (Cons d ds)
  show ?case
  proof (cases "too_small d")
    case True
    then show ?thesis by (simp add: Extract_loop_Cons_small Cons.IH del: Extract_loop.simps)
  next
    case False
    then show ?thesis
      by (simp add: Extract_loop_Cons_big Cons.IH del: Extract_loop.simps)
  qed
qed

lemma Extract_detected:
  "Detector e img = (allDetections, None) \<Longrightarrow>
   Extract ops e img = Extract_loop ops e img (Above allDetections float32_0_6) [] []"
  by (simp add: Extract_def)

lemma ExtractLandmarks_loop_Cons_small:
  "too_small d \<Longrightarrow>
   ExtractLandmarks_loop ops e img (d # ds) ret crops = ExtractLandmarks_loop ops e img ds ret crops"
  by (simp add: too_small_def)

lemma ExtractLandmarks_loop_Cons_big:
  assumes "\<not> too_small d"
  shows "ExtractLandmarks_loop ops e img (d # ds) ret crops =
     (case landmark_error e img d of
        Some err \<Rightarrow> Some ([], [], Some (Wrap err ''error detecting landmarks''))
      | None \<Rightarrow>
          ExtractLandmarks_loop ops e img ds (ret @ [landmark_points ops e img d])
            (crops @ [crop img d]))"
proof -
  obtain l lerr where L: "Landmark e (crop img d) = (l, lerr)"
    by (cases "Landmark e (crop img d)")
  have P: "PointsOnImage ops l (crop img d) = Some (landmark_points ops e img d)"
    using PointsOnImage_the [of ops l "crop img d"] by (simp add: landmark_points_def L)
  have small: "\<not> (Dx (Box d) < 45 \<or> Dy (Box d) < 45)"
    using assms by (simp add: too_small_def)
  show ?thesis
    by (simp only: ExtractLandmarks_loop.simps small if_False NewRGBA_Box [OF assms] option.case
        Let_def crop_def [symmetric])
      (simp add: L P landmark_error_def split: option.splits)
qed

lemma ExtractLandmarks_loop_char:
  "ExtractLandmarks_loop ops e img ds ret crops =
     Some (case find (\<lambda>d. \<not> too_small d \<and> landmark_error e img d \<noteq> None) ds of
             Some d \<Rightarrow>
               ([], [], map_option (\<lambda>err. Wrap err ''error detecting landmarks'')
                          (landmark_error e img d))
           | None \<Rightarrow>
               (ret @ map (landmark_points ops e img) [d \<leftarrow> ds. \<not> too_small d],
                crops @ map (crop img) [d \<leftarrow> ds. \<not> too_small d],
                None))"
proof (induction ds arbitrary: ret crops)
  case Nil
  then show ?case by simp
next
  case (Cons d ds)
  show ?case
  proof (cases "too_small d")
    case True
    then show ?thesis
      by (simp add: ExtractLandmarks_loop_Cons_small Cons.IH del: ExtractLandmarks_loop.simps
          split: option.splits)
  next
    case False
    then show ?thesis
      by (cases "landmark_error e img d")
        (simp_all add: ExtractLandmarks_loop_Cons_big Cons.IH del: ExtractLandmarks_loop.simps
          split: option.splits)
  qed
qed

lemma find_Some_set: "find P xs = Some x \<Longrightarrow> x \<in> set xs \<and> P x"
  by (induction xs) (auto split: if_splits)


lemma wrappers_distinct:
  "Wrap a ''error detecting faces'' \<noteq> Wrap b ''error detecting landmarks'' \<and>
   Wrap a ''error detecting faces'' \<noteq> Wrap b ''error computing descriptors'' \<and>
   Wrap a ''error detecting landmarks'' \<noteq> Wrap b ''error computing descriptors''"
  by simp

lemma stopped_not_success: "stopped ops e img d = Some (images, descrs, None) \<Longrightarrow> \<not> stops ops e img d"
  by (auto simp: stopped_def stops_def stage_error_def split: if_splits option.splits)

lemma Extract_success:
  assumes "Detector e img = (allDetections, None)"
    and "Extract ops e img = Some (images, descrs, None)"
  shows "images = map (normalized ops e img) [d \<leftarrow> Above allDetections float32_0_6. \<not> too_small d] \<and>
         descrs = map (descriptor_of ops e img) [d \<leftarrow> Above allDetections float32_0_6. \<not> too_small d] \<and>
         (\<forall>d \<in> set [d \<leftarrow> Above allDetections float32_0_6. \<not> too_small d]. \<not> stops ops e img d)"
proof (cases "find (\<lambda>d. \<not> too_small d \<and> stops ops e img d) (Above allDetections float32_0_6)")
  case None
  then have "Extract ops e img =
      Some (map (normalized ops e img) [d \<leftarrow> Above allDetections float32_0_6. \<not> too_small d],
            map (descriptor_of ops e img) [d \<leftarrow> Above allDetections float32_0_6. \<not> too_small d],
            None)"
    using assms(1) by (simp add: Extract_detected Extract_loop_char)
  moreover have "\<forall>d \<in> set [d \<leftarrow> Above allDetections float32_0_6. \<not> too_small d].
      \<not> stops ops e img d"
    using None by (auto simp: find_None_iff)
  ultimately show ?thesis using assms(2) by simp
next
  case (Some d)
  from find_Some_set [OF Some] have s: "stops ops e img d" by simp
  have "Extract ops e img = stopped ops e img d"
    using assms(1) Some by (simp add: Extract_detected Extract_loop_char)
  with assms(2) stopped_not_success s show ?thesis by metis
qed

lemma ExtractLandmarks_success:
  assumes "Detector e img = (allDetections, None)"
    and "ExtractLandmarks ops e img = Some (ret, crops, None)"
  shows "ret = map (landmark_points ops e img) [d \<leftarrow> Above allDetections float32_0_4. \<not> too_small d] \<and>
         crops = map (crop img) [d \<leftarrow> Above allDetections float32_0_4. \<not> too_small d]"
proof -
  have ne: "Above allDetections float32_0_4 \<noteq> []"
    using assms by (auto simp: ExtractLandmarks_def)
  show ?thesis
  proof (cases "find (\<lambda>d. \<not> too_small d \<and> landmark_error e img d \<noteq> None)
                  (Above allDetections float32_0_4)")
    case None
    then show ?thesis
      using assms ne by (simp add: ExtractLandmarks_def ExtractLandmarks_loop_char Let_def)
  next
    case (Some d)
    from find_Some_set [OF Some] have "landmark_error e img d \<noteq> None" by simp
    then show ?thesis
      using assms Some ne by (auto simp: ExtractLandmarks_def ExtractLandmarks_loop_char Let_def)
  qed
qed

lemma Bounds_normalized:
  assumes "\<not> Center_panics ops e img d"
  shows "Bounds (normalized ops e img d) = Center_rect (landmark_points ops e img d) (Bounds img)"
  using Center_normalized [OF assms]
  by (auto simp: Center_Some landmark_points_def Bounds_Draw Bounds_blank)

lemma not_too_small: "\<not> too_small d \<longleftrightarrow> 45 \<le> Dx (Box d) \<and> 45 \<le> Dy (Box d)"
  by (auto simp: too_small_def)

lemma Bounds_crop: "Bounds (crop img d) = Box d"
  by (simp add: crop_def Bounds_Draw Bounds_blank)

lemma find_filter: "find (\<lambda>x. Q x \<and> P x) xs = find P (filter Q xs)"
  by (induction xs) auto

lemma filter_Above_0_6:
  assumes "\<forall>d \<in> set ds. is_float32 (Score d)"
  shows "[d \<leftarrow> Above ds float32_0_6. \<not> too_small d] =
         [d \<leftarrow> ds. 6 / 10 \<le> Score d \<and> 45 \<le> Dx (Box d) \<and> 45 \<le> Dy (Box d)]"
  by (simp add: Above_float32_0_6 [OF assms] not_too_small conj_commute conj_left_commute)

lemma filter_Above_0_4:
  assumes "\<forall>d \<in> set ds. is_float32 (Score d)"
  shows "[d \<leftarrow> Above ds float32_0_4. \<not> too_small d] =
         [d \<leftarrow> ds. 4 / 10 \<le> Score d \<and> 45 \<le> Dx (Box d) \<and> 45 \<le> Dy (Box d)]"
  by (simp add: Above_float32_0_4 [OF assms] not_too_small conj_commute conj_left_commute)

subsection \<open>The concrete extractor\<close>

lemma upt_2: "[0..<2] = [0, 1]"
  by (simp add: upt_rec)

lemma example_points:
  "Dx (Box d) = 100 \<Longrightarrow> Dy (Box d) = 100 \<Longrightarrow>
   PointsOnImage exact_ops \<lparr>Coords = [1 / 4, 1 / 4, 1 / 2, 1 / 2]\<rparr> (crop img d) =
     Some [\<lparr>X = X (Min_pt (Box d)) + 25, Y = Y (Min_pt (Box d)) + 25\<rparr>,
           \<lparr>X = X (Min_pt (Box d)) + 50, Y = Y (Min_pt (Box d)) + 50\<rparr>]"
  using PointsOnImage_eq [of exact_ops "\<lparr>Coords = [1 / 4, 1 / 4, 1 / 2, 1 / 2]\<rparr>" "crop img d"]
  by (simp add: Bounds_crop exact_ops_def upt_2)

lemma example_Landmark:
  "X (Min_pt (Box d)) \<noteq> 100 \<Longrightarrow>
   Landmark (example_extractor ds) (crop img d) = (\<lparr>Coords = [1 / 4, 1 / 4, 1 / 2, 1 / 2]\<rparr>, None)"
  by (simp add: example_extractor_def Bounds_crop)

lemma example_Landmark_fails:
  "X (Min_pt (Box d)) = 100 \<Longrightarrow>
   Landmark (example_extractor ds) (crop img d) = (\<lparr>Coords = []\<rparr>, Some (New ''no landmarks''))"
  by (simp add: example_extractor_def Bounds_crop)

lemma Center_face:
  "Center exact_ops \<lparr>Coords = [1 / 4, 1 / 4, 1 / 2, 1 / 2]\<rparr> (crop example_image face) example_image
     = Some (Draw (blank \<lparr>Min_pt = \<lparr>X = 25, Y = 25\<rparr>, Max_pt = \<lparr>X = 50, Y = 50\<rparr>\<rparr>)
       \<lparr>Min_pt = \<lparr>X = 25, Y = 25\<rparr>, Max_pt = \<lparr>X = 50, Y = 50\<rparr>\<rparr> example_image \<lparr>X = 25, Y = 25\<rparr>)"
proof -
  have b: "Dx (Box face) = 100" "Dy (Box face) = 100"
    by (simp_all add: face_def Dx_def Dy_def)
  have r: "Center_rect [\<lparr>X = 25, Y = 25\<rparr>, \<lparr>X = 50, Y = 50\<rparr>] (Bounds example_image)
      = \<lparr>Min_pt = \<lparr>X = 25, Y = 25\<rparr>, Max_pt = \<lparr>X = 50, Y = 50\<rparr>\<rparr>"
    by (simp add: Center_rect_def Center_box_def Center_step_def square_def insideOf_def
        example_image_def Let_def)
  show ?thesis
    unfolding Center_Some using example_points [OF b, of example_image] r
    by (simp add: face_def Dx_def Dy_def)
qed

lemma Center_panics_face: "\<not> Center_panics exact_ops (example_extractor ds) example_image face"
proof -
  have b: "X (Min_pt (Box face)) \<noteq> 100" by (simp add: face_def)
  show ?thesis
    by (simp add: Center_panics_def example_Landmark [OF b] Center_face)
qed

lemma normalized_face:
  "normalized exact_ops (example_extractor ds) example_image face =
     Draw (blank \<lparr>Min_pt = \<lparr>X = 25, Y = 25\<rparr>, Max_pt = \<lparr>X = 50, Y = 50\<rparr>\<rparr>)
       \<lparr>Min_pt = \<lparr>X = 25, Y = 25\<rparr>, Max_pt = \<lparr>X = 50, Y = 50\<rparr>\<rparr> example_image \<lparr>X = 25, Y = 25\<rparr>"
proof -
  have b: "X (Min_pt (Box face)) \<noteq> 100" by (simp add: face_def)
  show ?thesis
    by (simp add: normalized_def example_Landmark [OF b] Center_face)
qed

lemma too_small_examples:
  "\<not> too_small face" "too_small small_face" "\<not> too_small faint_face" "\<not> too_small far_face"
  by (simp_all add: too_small_def face_def small_face_def faint_face_def far_face_def Dx_def Dy_def)

lemma landmark_error_examples:
  "landmark_error (example_extractor ds) img face = None"
  "landmark_error (example_extractor ds) img faint_face = None"
  "landmark_error (example_extractor ds) img far_face = Some (New ''no landmarks'')"
  "landmark_error (example_extractor ds) img small_face = Some (New ''no landmarks'')"
  by (simp_all add: landmark_error_def example_Landmark example_Landmark_fails face_def
      faint_face_def far_face_def small_face_def)

lemma descriptor_example:
  "descriptor_of ops (example_extractor ds) img d = [1, 2]"
  "descriptor_error ops (example_extractor ds) img d = None"
  by (simp_all add: descriptor_of_def descriptor_error_def example_extractor_def)

lemma stops_face: "\<not> stops exact_ops (example_extractor ds) example_image face"
  by (simp add: stops_def landmark_error_examples Center_panics_face descriptor_example)

lemma stops_far_face: "stops exact_ops (example_extractor ds) example_image far_face"
  by (simp add: stops_def landmark_error_examples)

lemma stopped_far_face:
  "stopped exact_ops (example_extractor ds) example_image far_face =
     Some ([], [], Some (Wrap (New ''no landmarks'') ''error detecting landmarks''))"
  by (simp add: stopped_def stage_error_def landmark_error_examples)

lemma Above_examples:
  "Above [face, small_face, faint_face] float32_0_6 = [face, small_face]"
  "Above [face, small_face, faint_face] float32_0_4 = [face, small_face, faint_face]"
  "Above [face, far_face] float32_0_6 = [face, far_face]"
  "Above [face] float32_0_6 = [face]"
  "Above [faint_face] float32_0_6 = []"
  "Above [faint_face] float32_0_4 = [faint_face]"
  by (simp_all add: Above_def face_def small_face_def faint_face_def far_face_def
      float32_0_6_def float32_0_4_def)

lemma Detector_example: "Detector (example_extractor ds) img = (ds, None)"
  by (simp add: example_extractor_def)

lemma Extract_face:
  "Extract exact_ops (example_extractor [face]) example_image =
     Some ([Draw (blank \<lparr>Min_pt = \<lparr>X = 25, Y = 25\<rparr>, Max_pt = \<lparr>X = 50, Y = 50\<rparr>\<rparr>)
              \<lparr>Min_pt = \<lparr>X = 25, Y = 25\<rparr>, Max_pt = \<lparr>X = 50, Y = 50\<rparr>\<rparr> example_image \<lparr>X = 25, Y = 25\<rparr>],
           [[1, 2]], None)"
  by (simp add: Extract_detected [OF Detector_example] Extract_loop_char Above_examples
      too_small_examples stops_face normalized_face descriptor_example)

lemma Extract_three_faces:
  "Extract exact_ops (example_extractor [face, small_face, faint_face]) example_image =
     Some ([Draw (blank \<lparr>Min_pt = \<lparr>X = 25, Y = 25\<rparr>, Max_pt = \<lparr>X = 50, Y = 50\<rparr>\<rparr>)
              \<lparr>Min_pt = \<lparr>X = 25, Y = 25\<rparr>, Max_pt = \<lparr>X = 50, Y = 50\<rparr>\<rparr> example_image \<lparr>X = 25, Y = 25\<rparr>],
           [[1, 2]], None)"
  by (simp add: Extract_detected [OF Detector_example] Extract_loop_char Above_examples
      too_small_examples stops_face normalized_face descriptor_example)


lemma landmark_points_face:
  "landmark_points exact_ops (example_extractor ds) img face =
     [\<lparr>X = 25, Y = 25\<rparr>, \<lparr>X = 50, Y = 50\<rparr>]"
proof -
  have b: "X (Min_pt (Box face)) \<noteq> 100" "Dx (Box face) = 100" "Dy (Box face) = 100"
    by (simp_all add: face_def Dx_def Dy_def)
  show ?thesis
    using example_points [OF b(2,3), of img]
    by (simp add: landmark_points_def example_Landmark [OF b(1)]) (simp add: face_def)
qed

lemma landmark_points_faint_face:
  "landmark_points exact_ops (example_extractor ds) img faint_face =
     [\<lparr>X = 25, Y = 125\<rparr>, \<lparr>X = 50, Y = 150\<rparr>]"
proof -
  have b: "X (Min_pt (Box faint_face)) \<noteq> 100" "Dx (Box faint_face) = 100" "Dy (Box faint_face) = 100"
    by (simp_all add: faint_face_def Dx_def Dy_def)
  show ?thesis
    using example_points [OF b(2,3), of img]
    by (simp add: landmark_points_def example_Landmark [OF b(1)]) (simp add: faint_face_def)
qed

lemma ExtractLandmarks_three_faces:
  "ExtractLandmarks exact_ops (example_extractor [face, small_face, faint_face]) example_image =
     Some ([[\<lparr>X = 25, Y = 25\<rparr>, \<lparr>X = 50, Y = 50\<rparr>], [\<lparr>X = 25, Y = 125\<rparr>, \<lparr>X = 50, Y = 150\<rparr>]],
           [crop example_image face, crop example_image faint_face], None)"
  by (simp add: ExtractLandmarks_def Detector_example ExtractLandmarks_loop_char Above_examples
      too_small_examples landmark_error_examples landmark_points_face landmark_points_faint_face)





lemma is_float32_1_2: "is_float32 (1 / 2)"
  unfolding is_float32_def
  by (rule exI [of _ 1], rule exI [of _ "-1"]) (simp add: power_int_minus field_simps)

subsection \<open>The claims on the extractor\<close>

text \<open>
  C7. On an image where no detection survives the score threshold, \<open>Extract\<close> returns
  empty lists and no error, and \<open>ExtractLandmarks\<close> returns the error
  \<open>no face detected\<close>; each with its own threshold.
\<close>

theorem Extract_no_detection:
  "(Detector e img = (allDetections, None) \<and> Above allDetections float32_0_6 = [] \<longrightarrow>
      Extract ops e img = Some ([], [], None)) \<and>
   (Detector e img = (allDetections, None) \<and> Above allDetections float32_0_4 = [] \<longrightarrow>
      ExtractLandmarks ops e img = Some ([], [], Some (New ''no face detected'')))"
  by (simp add: Extract_def ExtractLandmarks_def)

text \<open>
  The witness of C7: a detection whose score is between the thresholds does not survive
  in \<open>Extract\<close>, which returns nothing and no error; with no detection at all,
  \<open>ExtractLandmarks\<close> returns its error.
\<close>

theorem Extract_no_detection_witness:
  "Detector (example_extractor [faint_face]) example_image = ([faint_face], None) \<and>
   Above [faint_face] float32_0_6 = [] \<and>
   Extract exact_ops (example_extractor [faint_face]) example_image = Some ([], [], None) \<and>
   Detector (example_extractor []) example_image = ([], None) \<and>
   Above [] float32_0_4 = [] \<and>
   ExtractLandmarks exact_ops (example_extractor []) example_image =
     Some ([], [], Some (New ''no face detected''))"
proof -
  have h1: "Detector (example_extractor [faint_face]) example_image = ([faint_face], None) \<and>
      Above [faint_face] float32_0_6 = []"
    by (simp add: Detector_example Above_examples)
  have h2: "Detector (example_extractor []) example_image = ([], None) \<and>
      Above [] float32_0_4 = []"
    by (simp add: Detector_example Above_def)
  from h1 h2
    Extract_no_detection [of "example_extractor [faint_face]" example_image "[faint_face]" exact_ops]
    Extract_no_detection [of "example_extractor []" example_image "[]" exact_ops]
  show ?thesis by blast
qed




text \<open>
  C3, as the specification states it, fails: a detection of 100 by 100 whose landmarks
  span 25 by 25 pixels gives a returned crop of 25 by 25. The size test is on the box of
  the detection; the crop that \<open>Extract\<close> returns is the one \<open>Center\<close> cuts around the
  landmarks.
\<close>

theorem Extract_crop_below_45:
  "Extract exact_ops (example_extractor [face]) example_image =
     Some ([Draw (blank \<lparr>Min_pt = \<lparr>X = 25, Y = 25\<rparr>, Max_pt = \<lparr>X = 50, Y = 50\<rparr>\<rparr>)
              \<lparr>Min_pt = \<lparr>X = 25, Y = 25\<rparr>, Max_pt = \<lparr>X = 50, Y = 50\<rparr>\<rparr> example_image \<lparr>X = 25, Y = 25\<rparr>],
           [[1, 2]], None) \<and>
   Dx (Bounds (Draw (blank \<lparr>Min_pt = \<lparr>X = 25, Y = 25\<rparr>, Max_pt = \<lparr>X = 50, Y = 50\<rparr>\<rparr>)
              \<lparr>Min_pt = \<lparr>X = 25, Y = 25\<rparr>, Max_pt = \<lparr>X = 50, Y = 50\<rparr>\<rparr> example_image \<lparr>X = 25, Y = 25\<rparr>))
     = 25 \<and>
   Dy (Bounds (Draw (blank \<lparr>Min_pt = \<lparr>X = 25, Y = 25\<rparr>, Max_pt = \<lparr>X = 50, Y = 50\<rparr>\<rparr>)
              \<lparr>Min_pt = \<lparr>X = 25, Y = 25\<rparr>, Max_pt = \<lparr>X = 50, Y = 50\<rparr>\<rparr> example_image \<lparr>X = 25, Y = 25\<rparr>))
     = 25"
  by (simp add: Extract_face Bounds_Draw Bounds_blank Dx_def Dy_def)

text \<open>
  C3, amended. Every crop that \<open>Extract\<close> returns is the crop of \<open>Center\<close> for a detection
  whose box, the first crop, is at least 45 wide and at least 45 high (the detections
  with a smaller box are skipped); the returned crop is a square whose side is the larger
  dimension of the box of the landmarks, which can be below 45.
\<close>

theorem Extract_crops_from_large_boxes:
  assumes "Detector e img = (allDetections, None)"
    and "Extract ops e img = Some (images, descrs, None)"
  shows "images = map (normalized ops e img) [d \<leftarrow> Above allDetections float32_0_6. \<not> too_small d] \<and>
         (\<forall>d \<in> set [d \<leftarrow> Above allDetections float32_0_6. \<not> too_small d].
            45 \<le> Dx (Box d) \<and> 45 \<le> Dy (Box d) \<and> Bounds (crop img d) = Box d \<and>
            Dx (Bounds (normalized ops e img d)) = Dy (Bounds (normalized ops e img d)) \<and>
            Dx (Bounds (normalized ops e img d)) =
              max (Dx (Center_box (landmark_points ops e img d) (Bounds img)))
                  (Dy (Center_box (landmark_points ops e img d) (Bounds img))))"
proof -
  note s = Extract_success [OF assms]
  have "\<not> Center_panics ops e img d"
    if "d \<in> set [d \<leftarrow> Above allDetections float32_0_6. \<not> too_small d]" for d
    using s that by (auto simp: stops_def)
  then show ?thesis
    using s
    by (simp add: not_too_small Bounds_crop Bounds_normalized Center_rect_eq insideOf_Dx insideOf_Dy
        square_Dx square_Dy)
qed

text \<open>The witness: of three detections, one gives a crop; its box is 100 by 100, the crop 25 by 25.\<close>

theorem Extract_crops_from_large_boxes_witness:
  "Detector (example_extractor [face, small_face, faint_face]) example_image
     = ([face, small_face, faint_face], None) \<and>
   Extract exact_ops (example_extractor [face, small_face, faint_face]) example_image =
     Some ([Draw (blank \<lparr>Min_pt = \<lparr>X = 25, Y = 25\<rparr>, Max_pt = \<lparr>X = 50, Y = 50\<rparr>\<rparr>)
              \<lparr>Min_pt = \<lparr>X = 25, Y = 25\<rparr>, Max_pt = \<lparr>X = 50, Y = 50\<rparr>\<rparr> example_image \<lparr>X = 25, Y = 25\<rparr>],
           [[1, 2]], None) \<and>
   [d \<leftarrow> Above [face, small_face, faint_face] float32_0_6. \<not> too_small d] = [face] \<and>
   Dx (Box face) = 100 \<and> Dy (Box face) = 100 \<and>
   Dx (Bounds (normalized exact_ops (example_extractor [face, small_face, faint_face])
                 example_image face)) = 25 \<and>
   Dy (Bounds (normalized exact_ops (example_extractor [face, small_face, faint_face])
                 example_image face)) = 25"
proof -
  let ?e = "example_extractor [face, small_face, faint_face]"
  have h1: "Detector ?e example_image = ([face, small_face, faint_face], None)"
    by (rule Detector_example)
  note h2 = Extract_three_faces
  have s: "[d \<leftarrow> Above [face, small_face, faint_face] float32_0_6. \<not> too_small d] = [face]"
    by (simp add: Above_examples too_small_examples)
  have b: "Dx (Box face) = 100 \<and> Dy (Box face) = 100"
    by (simp add: face_def Dx_def Dy_def)
  have lb: "Center_box (landmark_points exact_ops ?e example_image face) (Bounds example_image)
      = \<lparr>Min_pt = \<lparr>X = 25, Y = 25\<rparr>, Max_pt = \<lparr>X = 50, Y = 50\<rparr>\<rparr>"
    by (simp add: landmark_points_face Center_box_def Center_step_def example_image_def)
  from Extract_crops_from_large_boxes [OF h1 h2]
  have "Dx (Bounds (normalized exact_ops ?e example_image face)) =
          Dy (Bounds (normalized exact_ops ?e example_image face)) \<and>
        Dx (Bounds (normalized exact_ops ?e example_image face)) = 25"
    by (simp add: s lb Dx_def Dy_def)
  with h1 h2 s b show ?thesis by simp
qed

text \<open>
  C8. \<open>Extract\<close> works on exactly the detections whose score is at least 0.6 and whose
  box is at least 45 wide and 45 high, in the order of the detector's list, up to the
  first one at which it stops: its result is the result of that one, or else the crops
  and the descriptors of all of them, in that order. \<open>ExtractLandmarks\<close> does the same
  with 0.4, after its test for no surviving detection. The other detections do not
  appear in the results: no landmark or descriptor is computed for them.
\<close>

theorem Extract_selection:
  assumes "Detector e img = (allDetections, None)"
    and "\<forall>d \<in> set allDetections. is_float32 (Score d)"
  shows "Extract ops e img =
           (case find (stops ops e img)
                   [d \<leftarrow> allDetections. 6 / 10 \<le> Score d \<and> 45 \<le> Dx (Box d) \<and> 45 \<le> Dy (Box d)] of
              None \<Rightarrow>
                Some (map (normalized ops e img)
                        [d \<leftarrow> allDetections. 6 / 10 \<le> Score d \<and> 45 \<le> Dx (Box d) \<and> 45 \<le> Dy (Box d)],
                      map (descriptor_of ops e img)
                        [d \<leftarrow> allDetections. 6 / 10 \<le> Score d \<and> 45 \<le> Dx (Box d) \<and> 45 \<le> Dy (Box d)],
                      None)
            | Some d \<Rightarrow> stopped ops e img d) \<and>
         ExtractLandmarks ops e img =
           (if [d \<leftarrow> allDetections. 4 / 10 \<le> Score d] = []
            then Some ([], [], Some (New ''no face detected''))
            else
              (case find (\<lambda>d. landmark_error e img d \<noteq> None)
                      [d \<leftarrow> allDetections. 4 / 10 \<le> Score d \<and> 45 \<le> Dx (Box d) \<and> 45 \<le> Dy (Box d)] of
                 None \<Rightarrow>
                   Some (map (landmark_points ops e img)
                           [d \<leftarrow> allDetections. 4 / 10 \<le> Score d \<and> 45 \<le> Dx (Box d) \<and> 45 \<le> Dy (Box d)],
                         map (crop img)
                           [d \<leftarrow> allDetections. 4 / 10 \<le> Score d \<and> 45 \<le> Dx (Box d) \<and> 45 \<le> Dy (Box d)],
                         None)
               | Some d \<Rightarrow>
                   Some ([], [], map_option (\<lambda>err. Wrap err ''error detecting landmarks'')
                                   (landmark_error e img d))))"
proof -
  have 1: "Extract ops e img =
      (case find (stops ops e img) [d \<leftarrow> Above allDetections float32_0_6. \<not> too_small d] of
         None \<Rightarrow>
           Some (map (normalized ops e img) [d \<leftarrow> Above allDetections float32_0_6. \<not> too_small d],
                 map (descriptor_of ops e img) [d \<leftarrow> Above allDetections float32_0_6. \<not> too_small d],
                 None)
       | Some d \<Rightarrow> stopped ops e img d)"
    by (simp add: Extract_detected [OF assms(1)] Extract_loop_char find_filter
        cong: option.case_cong)
  have 2: "ExtractLandmarks ops e img =
      (if Above allDetections float32_0_4 = []
       then Some ([], [], Some (New ''no face detected''))
       else
         (case find (\<lambda>d. landmark_error e img d \<noteq> None)
                 [d \<leftarrow> Above allDetections float32_0_4. \<not> too_small d] of
            None \<Rightarrow>
              Some (map (landmark_points ops e img)
                      [d \<leftarrow> Above allDetections float32_0_4. \<not> too_small d],
                    map (crop img) [d \<leftarrow> Above allDetections float32_0_4. \<not> too_small d],
                    None)
          | Some d \<Rightarrow>
              Some ([], [], map_option (\<lambda>err. Wrap err ''error detecting landmarks'')
                              (landmark_error e img d))))"
    by (simp add: ExtractLandmarks_def assms(1) Let_def ExtractLandmarks_loop_char find_filter
        cong: option.case_cong split: option.splits)
  note 1 = 1 [unfolded filter_Above_0_6 [OF assms(2)]]
  note 2 = 2 [unfolded filter_Above_0_4 [OF assms(2)]]
  note 2 = 2 [unfolded Above_float32_0_4 [OF assms(2)]]
  from 1 2 show ?thesis by (rule conjI)
qed

text \<open>
  The witness: three detections, where the second is too small, and the landmark stage
  would fail on it, and the third passes 0.4 and not 0.6; and two detections, where the
  landmark stage fails on the second.
\<close>

theorem Extract_selection_witness:
  "Detector (example_extractor [face, small_face, faint_face]) example_image
     = ([face, small_face, faint_face], None) \<and>
   is_float32 (Score face) \<and> is_float32 (Score small_face) \<and> is_float32 (Score faint_face) \<and>
   [d \<leftarrow> [face, small_face, faint_face]. 6 / 10 \<le> Score d \<and> 45 \<le> Dx (Box d) \<and> 45 \<le> Dy (Box d)]
     = [face] \<and>
   [d \<leftarrow> [face, small_face, faint_face]. 4 / 10 \<le> Score d \<and> 45 \<le> Dx (Box d) \<and> 45 \<le> Dy (Box d)]
     = [face, faint_face] \<and>
   Extract exact_ops (example_extractor [face, small_face, faint_face]) example_image =
     Some ([Draw (blank \<lparr>Min_pt = \<lparr>X = 25, Y = 25\<rparr>, Max_pt = \<lparr>X = 50, Y = 50\<rparr>\<rparr>)
              \<lparr>Min_pt = \<lparr>X = 25, Y = 25\<rparr>, Max_pt = \<lparr>X = 50, Y = 50\<rparr>\<rparr> example_image \<lparr>X = 25, Y = 25\<rparr>],
           [[1, 2]], None) \<and>
   ExtractLandmarks exact_ops (example_extractor [face, small_face, faint_face]) example_image =
     Some ([[\<lparr>X = 25, Y = 25\<rparr>, \<lparr>X = 50, Y = 50\<rparr>], [\<lparr>X = 25, Y = 125\<rparr>, \<lparr>X = 50, Y = 150\<rparr>]],
           [crop example_image face, crop example_image faint_face], None) \<and>
   landmark_error (example_extractor [face, small_face, faint_face]) example_image small_face
     = Some (New ''no landmarks'') \<and>
   Detector (example_extractor [face, far_face]) example_image = ([face, far_face], None) \<and>
   is_float32 (Score far_face) \<and>
   Extract exact_ops (example_extractor [face, far_face]) example_image =
     Some ([], [], Some (Wrap (New ''no landmarks'') ''error detecting landmarks'')) \<and>
   ExtractLandmarks exact_ops (example_extractor [face, far_face]) example_image =
     Some ([], [], Some (Wrap (New ''no landmarks'') ''error detecting landmarks''))"
proof -
  let ?e = "example_extractor [face, small_face, faint_face]"
  let ?eb = "example_extractor [face, far_face]"
  have h1: "Detector ?e example_image = ([face, small_face, faint_face], None)"
    by (rule Detector_example)
  have f: "is_float32 (Score face) \<and> is_float32 (Score small_face) \<and> is_float32 (Score faint_face)"
    by (simp add: face_def small_face_def faint_face_def is_float32_3_4 is_float32_1_2)
  then have h2: "\<forall>d \<in> set [face, small_face, faint_face]. is_float32 (Score d)" by simp
  have s6: "[d \<leftarrow> [face, small_face, faint_face].
        6 / 10 \<le> Score d \<and> 45 \<le> Dx (Box d) \<and> 45 \<le> Dy (Box d)] = [face]"
    by (simp add: face_def small_face_def faint_face_def Dx_def Dy_def)
  have s4: "[d \<leftarrow> [face, small_face, faint_face].
        4 / 10 \<le> Score d \<and> 45 \<le> Dx (Box d) \<and> 45 \<le> Dy (Box d)] = [face, faint_face]"
    by (simp add: face_def small_face_def faint_face_def Dx_def Dy_def)
  have a4: "[d \<leftarrow> [face, small_face, faint_face]. 4 / 10 \<le> Score d] \<noteq> []"
    by (simp add: face_def)
  note t = Extract_selection [OF h1 h2, of exact_ops, unfolded s6 s4]
  have E: "Extract exact_ops ?e example_image =
      Some ([Draw (blank \<lparr>Min_pt = \<lparr>X = 25, Y = 25\<rparr>, Max_pt = \<lparr>X = 50, Y = 50\<rparr>\<rparr>)
              \<lparr>Min_pt = \<lparr>X = 25, Y = 25\<rparr>, Max_pt = \<lparr>X = 50, Y = 50\<rparr>\<rparr> example_image \<lparr>X = 25, Y = 25\<rparr>],
           [[1, 2]], None)"
    using t by (simp add: stops_face normalized_face descriptor_example)
  have L: "ExtractLandmarks exact_ops ?e example_image =
     Some ([[\<lparr>X = 25, Y = 25\<rparr>, \<lparr>X = 50, Y = 50\<rparr>], [\<lparr>X = 25, Y = 125\<rparr>, \<lparr>X = 50, Y = 150\<rparr>]],
           [crop example_image face, crop example_image faint_face], None)"
    using t a4 by (simp add: landmark_error_examples landmark_points_face landmark_points_faint_face)
  have le: "landmark_error ?e example_image small_face = Some (New ''no landmarks'')"
    by (simp add: landmark_error_examples)
  have g1: "Detector ?eb example_image = ([face, far_face], None)"
    by (rule Detector_example)
  have ff: "is_float32 (Score far_face)" by (simp add: far_face_def is_float32_3_4)
  then have g2: "\<forall>d \<in> set [face, far_face]. is_float32 (Score d)"
    by (simp add: face_def is_float32_3_4)
  have r6: "[d \<leftarrow> [face, far_face].
        6 / 10 \<le> Score d \<and> 45 \<le> Dx (Box d) \<and> 45 \<le> Dy (Box d)] = [face, far_face]"
    by (simp add: face_def far_face_def Dx_def Dy_def)
  have r4: "[d \<leftarrow> [face, far_face].
        4 / 10 \<le> Score d \<and> 45 \<le> Dx (Box d) \<and> 45 \<le> Dy (Box d)] = [face, far_face]"
    by (simp add: face_def far_face_def Dx_def Dy_def)
  have b4: "[d \<leftarrow> [face, far_face]. 4 / 10 \<le> Score d] \<noteq> []"
    by (simp add: face_def)
  note t2 = Extract_selection [OF g1 g2, of exact_ops, unfolded r6 r4]
  have E2: "Extract exact_ops ?eb example_image =
      Some ([], [], Some (Wrap (New ''no landmarks'') ''error detecting landmarks''))"
    using t2 by (simp add: stops_face stops_far_face stopped_far_face)
  have L2: "ExtractLandmarks exact_ops ?eb example_image =
      Some ([], [], Some (Wrap (New ''no landmarks'') ''error detecting landmarks''))"
    using t2 b4 by (simp add: landmark_error_examples)
  from h1 f s6 s4 E L le g1 ff E2 L2 show ?thesis by blast
qed

section \<open>Properties of the local cache\<close>

lemma slash_notin_digits: "CHR ''/'' \<notin> set ''0123456789abcdef''"
  by simp

lemma hexdigit_not_slash: "n < 16 \<Longrightarrow> hexdigit n \<noteq> CHR ''/''"
proof -
  assume "n < 16"
  then have "hexdigit n \<in> set ''0123456789abcdef''"
    unfolding hexdigit_def by (intro nth_mem) simp
  with slash_notin_digits show ?thesis by metis
qed

lemma slash_notin_hex: "CHR ''/'' \<notin> set (hex bs)"
proof -
  have "hexdigit (unat b div 16) \<noteq> CHR ''/'' \<and> hexdigit (unat b mod 16) \<noteq> CHR ''/''" for b :: "8 word"
  proof -
    have "unat b < 256" using unsigned_less [of b] by simp
    then have "unat b div 16 < 16" "unat b mod 16 < 16" by simp_all
    then show ?thesis by (simp add: hexdigit_not_slash)
  qed
  then have "\<forall>b \<in> set bs. CHR ''/'' \<notin> set [hexdigit (unat b div 16), hexdigit (unat b mod 16)]"
    by (metis empty_iff empty_set set_ConsD)
  then show ?thesis unfolding hex_def set_concat by (simp only: set_map) blast
qed

lemma parent_append:
  assumes "CHR ''/'' \<notin> set name"
  shows "parent (dir @ ''/'' @ name) = dir"
proof -
  have "dropWhile (\<lambda>c. c \<noteq> CHR ''/'') (rev name @ ''/'' @ rev dir) = ''/'' @ rev dir"
    using assms by (subst dropWhile_append2) auto
  then show ?thesis by (simp add: parent_def)
qed

lemma parent_cacheName: "parent (cacheName pk dir file) = dir"
  unfolding cacheName_def by (rule parent_append) (simp add: slash_notin_hex)

lemma cacheName_neq: "cacheName pk dir file \<noteq> dir"
  by (simp add: cacheName_def)

lemma saveCache_persists:
  assumes "json_Marshal pk preds = (b, None)"
    and "cacheName pk dir file \<notin> dirs fs"
    and "dir \<in> dirs fs \<or> dir \<notin> dirs fs \<and> files fs dir = None \<and> parent dir \<in> dirs fs"
  shows "files (saveCache pk fs dir (cacheName pk dir file) preds) (cacheName pk dir file) = Some b"
  using assms
  by (auto simp: saveCache_def WriteFile_def Mkdir_def parent_cacheName cacheName_neq)

lemma readCache_hit:
  "files fs cacheFile = Some b \<Longrightarrow> json_Unmarshal pk b = (preds, None) \<Longrightarrow>
   readCache pk fs cacheFile = (preds, True)"
  by (simp add: readCache_def ReadFile_def)

lemma Inception_hit:
  "readCache pk fs (cacheName pk (CacheDir l) file) = (preds, True) \<Longrightarrow>
   Inception pk l file inception (fs, s) = ((preds, None), fs, s)"
  by (simp add: Inception_def)

lemma Inception_miss_error:
  "readCache pk fs (cacheName pk (CacheDir l) file) = (p0, False) \<Longrightarrow>
   inception s = ((preds, Some err), s') \<Longrightarrow>
   Inception pk l file inception (fs, s) = (([], Some err), fs, s')"
  by (simp add: Inception_def)

lemma Inception_miss_success:
  "readCache pk fs (cacheName pk (CacheDir l) file) = (p0, False) \<Longrightarrow>
   inception s = ((preds, None), s') \<Longrightarrow>
   Inception pk l file inception (fs, s) =
     ((preds, None), saveCache pk fs (CacheDir l) (cacheName pk (CacheDir l) file) preds, s')"
  by (simp add: Inception_def)

lemma example_cacheName:
  "cacheName example_packages ''photos/.inception'' ''photos/a.jpg'' =
     ''photos/.inception/441d0513b2eee46ea9b5c481500fcb6244144358.json''"
  by (simp add: cacheName_def example_packages_def hex_def hexdigit_def)

lemma example_cacheName':
  "cacheName example_packages (CacheDir example_cache) ''photos/a.jpg'' =
     ''photos/.inception/441d0513b2eee46ea9b5c481500fcb6244144358.json''"
  by (simp add: example_cache_def example_cacheName)

lemma example_parent: "parent ''photos/.inception'' = ''photos''"
  by (simp add: parent_def)

lemma example_parent_file:
  "parent ''photos/.inception/441d0513b2eee46ea9b5c481500fcb6244144358.json'' = ''photos/.inception''"
  using parent_cacheName [of example_packages "''photos/.inception''" "''photos/a.jpg''"]
  by (simp only: example_cacheName)

lemma readCache_fresh:
  "readCache example_packages fresh_fs
     ''photos/.inception/441d0513b2eee46ea9b5c481500fcb6244144358.json'' = ([], False)"
  by (simp add: readCache_def ReadFile_def fresh_fs_def)

lemma readCache_blocked:
  "readCache example_packages blocked_fs
     ''photos/.inception/441d0513b2eee46ea9b5c481500fcb6244144358.json'' = ([], False)"
  by (simp add: readCache_def ReadFile_def blocked_fs_def)

lemma saveCache_blocked:
  "saveCache example_packages blocked_fs ''photos/.inception''
     ''photos/.inception/441d0513b2eee46ea9b5c481500fcb6244144358.json'' [''cat''] = blocked_fs"
  by (simp add: saveCache_def WriteFile_def Mkdir_def example_parent_file example_packages_def)
    (simp add: blocked_fs_def)

lemma saveCache_fresh:
  "saveCache example_packages fresh_fs ''photos/.inception''
     ''photos/.inception/441d0513b2eee46ea9b5c481500fcb6244144358.json'' [''cat''] = cached_fs"
  by (simp add: saveCache_def WriteFile_def Mkdir_def example_parent_file example_parent
      example_packages_def)
    (simp add: fresh_fs_def cached_fs_def)

lemma readCache_cached:
  "readCache example_packages cached_fs
     ''photos/.inception/441d0513b2eee46ea9b5c481500fcb6244144358.json'' = ([''cat''], True)"
  by (simp add: readCache_def ReadFile_def cached_fs_def example_packages_def)

text \<open>
  C4, as the specification states it, fails. Where the cache file cannot be written (here
  the name of the cache directory is taken by a regular file, so that neither
  \<open>WriteFile\<close> nor \<open>Mkdir\<close> succeeds), \<open>saveCache\<close> prints the error and \<open>Inception\<close> returns
  the result all the same: nothing is persisted, and the second call with the same file
  calls the closure again. The counter of the closure is 2 after two calls.
\<close>

theorem Inception_not_persisted:
  "Inception example_packages example_cache ''photos/a.jpg'' (counting ([''cat''], None))
     (blocked_fs, 0) = (([''cat''], None), blocked_fs, 1) \<and>
   files blocked_fs (cacheName example_packages (CacheDir example_cache) ''photos/a.jpg'') = None \<and>
   Inception example_packages example_cache ''photos/a.jpg'' (counting ([''cat''], None))
     (blocked_fs, 1) = (([''cat''], None), blocked_fs, 2)"
proof -
  have s: "saveCache example_packages blocked_fs (CacheDir example_cache)
     ''photos/.inception/441d0513b2eee46ea9b5c481500fcb6244144358.json'' [''cat''] = blocked_fs"
    using saveCache_blocked by (simp add: example_cache_def)
  have f: "files blocked_fs ''photos/.inception/441d0513b2eee46ea9b5c481500fcb6244144358.json'' = None"
    by (simp add: blocked_fs_def)
  show ?thesis
    by (simp add: Inception_def example_cacheName' readCache_blocked counting_def s f)
qed

text \<open>
  C4, amended. On a hit the stored result is returned, and the closure is not called (its
  state is the same). On a miss the closure is called. If it fails, its error is
  returned and the file system is the same. If it succeeds, its result is returned; and
  when the result is serialised and the cache file can be written (its path is not a
  directory, and the cache directory exists or can be created), the serialised result is
  in the cache file on return. Then, when the stored text reads back as the result, the
  next call with the same file returns the same result without calling its closure: two
  successive calls call the closure once.
\<close>

theorem Inception_cache:
  "(readCache pk fs (cacheName pk (CacheDir l) file) = (preds, True) \<longrightarrow>
      Inception pk l file inception (fs, s) = ((preds, None), fs, s)) \<and>
   (readCache pk fs (cacheName pk (CacheDir l) file) = (p0, False) \<and>
    inception s = ((preds, Some err), s') \<longrightarrow>
      Inception pk l file inception (fs, s) = (([], Some err), fs, s')) \<and>
   (readCache pk fs (cacheName pk (CacheDir l) file) = (p0, False) \<and>
    inception s = ((preds, None), s') \<longrightarrow>
      (\<exists>fs'. Inception pk l file inception (fs, s) = ((preds, None), fs', s') \<and>
         (json_Marshal pk preds = (b, None) \<and>
          cacheName pk (CacheDir l) file \<notin> dirs fs \<and>
          (CacheDir l \<in> dirs fs \<or>
           CacheDir l \<notin> dirs fs \<and> files fs (CacheDir l) = None \<and> parent (CacheDir l) \<in> dirs fs) \<longrightarrow>
            files fs' (cacheName pk (CacheDir l) file) = Some b \<and>
            (json_Unmarshal pk b = (preds, None) \<longrightarrow>
               Inception pk l file inception2 (fs', s') = ((preds, None), fs', s')))))"
proof (intro conjI impI)
  assume "readCache pk fs (cacheName pk (CacheDir l) file) = (preds, True)"
  then show "Inception pk l file inception (fs, s) = ((preds, None), fs, s)"
    by (rule Inception_hit)
next
  assume "readCache pk fs (cacheName pk (CacheDir l) file) = (p0, False) \<and>
    inception s = ((preds, Some err), s')"
  then show "Inception pk l file inception (fs, s) = (([], Some err), fs, s')"
    by (simp add: Inception_miss_error)
next
  let ?cf = "cacheName pk (CacheDir l) file"
  let ?fs' = "saveCache pk fs (CacheDir l) ?cf preds"
  assume a: "readCache pk fs ?cf = (p0, False) \<and> inception s = ((preds, None), s')"
  then have I: "Inception pk l file inception (fs, s) = ((preds, None), ?fs', s')"
    by (simp add: Inception_miss_success)
  have W: "files ?fs' ?cf = Some b \<and>
      (json_Unmarshal pk b = (preds, None) \<longrightarrow>
         Inception pk l file inception2 (?fs', s') = ((preds, None), ?fs', s'))"
    if h: "json_Marshal pk preds = (b, None) \<and> ?cf \<notin> dirs fs \<and>
      (CacheDir l \<in> dirs fs \<or>
       CacheDir l \<notin> dirs fs \<and> files fs (CacheDir l) = None \<and> parent (CacheDir l) \<in> dirs fs)"
  proof -
    from h have f: "files ?fs' ?cf = Some b"
      by (intro saveCache_persists) simp_all
    have "Inception pk l file inception2 (?fs', s') = ((preds, None), ?fs', s')"
      if "json_Unmarshal pk b = (preds, None)"
      using readCache_hit [OF f that] by (rule Inception_hit)
    with f show ?thesis by simp
  qed
  from I W show "\<exists>fs'. Inception pk l file inception (fs, s) = ((preds, None), fs', s') \<and>
         (json_Marshal pk preds = (b, None) \<and> ?cf \<notin> dirs fs \<and>
          (CacheDir l \<in> dirs fs \<or>
           CacheDir l \<notin> dirs fs \<and> files fs (CacheDir l) = None \<and> parent (CacheDir l) \<in> dirs fs) \<longrightarrow>
            files fs' ?cf = Some b \<and>
            (json_Unmarshal pk b = (preds, None) \<longrightarrow>
               Inception pk l file inception2 (fs', s') = ((preds, None), fs', s')))"
    by blast
qed

text \<open>
  The witness: the cache directory does not exist. The first call creates it, writes the
  file and leaves the counter at 1; the second call is a hit and the counter is still 1.
  A closure that fails leaves the file system as it was.
\<close>

theorem Inception_cache_witness:
  \<open>readCache example_packages fresh_fs
     (cacheName example_packages (CacheDir example_cache) ''photos/a.jpg'') = ([], False) \<and>
   counting ([''cat''], None) 0 = (([''cat''], None), 1) \<and>
   json_Marshal example_packages [''cat''] = (''["cat"]'', None) \<and>
   cacheName example_packages (CacheDir example_cache) ''photos/a.jpg'' \<notin> dirs fresh_fs \<and>
   CacheDir example_cache \<notin> dirs fresh_fs \<and>
   files fresh_fs (CacheDir example_cache) = None \<and>
   parent (CacheDir example_cache) \<in> dirs fresh_fs \<and>
   json_Unmarshal example_packages ''["cat"]'' = ([''cat''], None) \<and>
   Inception example_packages example_cache ''photos/a.jpg'' (counting ([''cat''], None))
     (fresh_fs, 0) = (([''cat''], None), cached_fs, 1) \<and>
   files cached_fs (cacheName example_packages (CacheDir example_cache) ''photos/a.jpg'')
     = Some ''["cat"]'' \<and>
   Inception example_packages example_cache ''photos/a.jpg'' (counting ([''cat''], None))
     (cached_fs, 1) = (([''cat''], None), cached_fs, 1) \<and>
   readCache example_packages cached_fs
     (cacheName example_packages (CacheDir example_cache) ''photos/a.jpg'') = ([''cat''], True) \<and>
   counting ([], Some (New ''no classifier given'')) 0 = (([], Some (New ''no classifier given'')), 1) \<and>
   Inception example_packages example_cache ''photos/a.jpg''
     (counting ([], Some (New ''no classifier given''))) (fresh_fs, 0)
     = (([], Some (New ''no classifier given'')), fresh_fs, 1)\<close>
proof -
  let ?cf = "cacheName example_packages (CacheDir example_cache) ''photos/a.jpg''"
  let ?ok = "counting ([''cat''], None)"
  let ?ko = "counting ([], Some (New ''no classifier given''))"
  have h1: "readCache example_packages fresh_fs ?cf = ([], False)"
    by (simp add: example_cacheName' readCache_fresh)
  have h2: "?ok 0 = (([''cat''], None), 1)" by (simp add: counting_def)
  have h3: \<open>json_Marshal example_packages [''cat''] = (''["cat"]'', None)\<close>
    by (simp add: example_packages_def)
  have h4: "?cf \<notin> dirs fresh_fs"
    by (simp add: example_cacheName' fresh_fs_def)
  have h5: "CacheDir example_cache \<notin> dirs fresh_fs \<and> files fresh_fs (CacheDir example_cache) = None \<and>
      parent (CacheDir example_cache) \<in> dirs fresh_fs"
    by (simp add: example_cache_def fresh_fs_def example_parent)
  have h6: \<open>json_Unmarshal example_packages ''["cat"]'' = ([''cat''], None)\<close>
    by (simp add: example_packages_def)
  have h7: "readCache example_packages cached_fs ?cf = ([''cat''], True)"
    by (simp add: example_cacheName' readCache_cached)
  have h8: "?ko 0 = (([], Some (New ''no classifier given'')), 1)" by (simp add: counting_def)
  have I: "Inception example_packages example_cache ''photos/a.jpg'' ?ok (fresh_fs, 0)
      = (([''cat''], None), cached_fs, 1)"
    using saveCache_fresh
      Inception_miss_success [of example_packages fresh_fs example_cache "''photos/a.jpg''" "[]"
        ?ok 0 "[''cat'']" 1, OF h1 h2]
    by (simp add: example_cacheName') (simp add: example_cache_def)
  note t1 = Inception_cache [of example_packages fresh_fs example_cache "''photos/a.jpg''"
      "[''cat'']" ?ok 0 "[]" "New ''no classifier given''" 1 \<open>''["cat"]''\<close> ?ok]
  from t1 h1 h2 obtain fs' where
    a: "Inception example_packages example_cache ''photos/a.jpg'' ?ok (fresh_fs, 0)
          = (([''cat''], None), fs', 1)"
    and b: \<open>json_Marshal example_packages [''cat''] = (''["cat"]'', None) \<and>
          ?cf \<notin> dirs fresh_fs \<and>
          (CacheDir example_cache \<in> dirs fresh_fs \<or>
           CacheDir example_cache \<notin> dirs fresh_fs \<and> files fresh_fs (CacheDir example_cache) = None \<and>
           parent (CacheDir example_cache) \<in> dirs fresh_fs) \<longrightarrow>
            files fs' ?cf = Some ''["cat"]'' \<and>
            (json_Unmarshal example_packages ''["cat"]'' = ([''cat''], None) \<longrightarrow>
               Inception example_packages example_cache ''photos/a.jpg'' ?ok (fs', 1)
                 = (([''cat''], None), fs', 1))\<close>
    by blast
  from a I have fs': "fs' = cached_fs" by simp
  from b h3 h4 h5 h6 have c: \<open>files cached_fs ?cf = Some ''["cat"]'' \<and>
      Inception example_packages example_cache ''photos/a.jpg'' ?ok (cached_fs, 1)
        = (([''cat''], None), cached_fs, 1)\<close>
    unfolding fs' by blast
  note t2 = Inception_cache [of example_packages fresh_fs example_cache "''photos/a.jpg''"
      "[]" ?ko 0 "[]" "New ''no classifier given''" 1]
  from t2 h1 h8 have d: "Inception example_packages example_cache ''photos/a.jpg'' ?ko (fresh_fs, 0)
     = (([], Some (New ''no classifier given'')), fresh_fs, 1)"
    by blast
  from h1 h2 h3 h4 h5 h6 h7 h8 I c d show ?thesis by blast
qed

end
